theory Spec2Isabelle
  imports Main
begin

section \<open>Data model of jiracli/cli.go\<close>

text \<open>
  Go errors are values; \<open>nil\<close> is \<open>None\<close> of \<open>error option\<close>. \<open>EOF\<close> is \<open>io.EOF\<close>,
  \<open>NotExist\<close> the error of opening a path that has no file, \<open>Failure\<close> any other error
  an external collaborator reports.
\<close>

datatype error = EOF | NotExist string | Failure string

text \<open>\<open>type Exit struct { Code int }\<close>, the value the edit loop panics with.\<close>

record Exit =
  Code :: int

text \<open>
  A Go call either returns its results or panics; deferred functions run in both cases.
\<close>

datatype 'a outcome = Returned 'a | Panicked Exit

text \<open>
  \<open>CommonOptions\<close>; a figtree option is represented by its \<open>.Value\<close>.
\<close>

record CommonOptions =
  Browse :: bool
  Editor :: string
  JsonQuery :: string
  JsonQueryRaw :: bool
  SkipEditing :: bool
  Template :: string

text \<open>
  What the user does at a \<open>survey.Confirm\<close> prompt: type yes, type no, press return on an
  empty line, or leave the prompt without an answer (interrupt, end of input), in which
  case \<open>survey.AskOne\<close> returns an error and does not write the response.
\<close>

datatype reply = Yes | No | Blank | NoAnswer

text \<open>
  The calls the code makes to the outside, in the order it makes them. \<open>'d\<close> is the type
  of the Document (\<open>output\<close>). A prompt is recorded with what the user did, the
  populating \<open>yaml.Unmarshal\<close> with the Document and the bytes it was given, the submit
  callback with the Document it found and the error it returned.
\<close>

datatype 'd event =
    EvRender string
  | EvCopyFile string string
  | EvRemove string
  | EvExec "string list"
  | EvLogError error
  | EvConfirm string reply
  | EvReadFile string
  | EvPopulate 'd string
  | EvSubmit 'd "error option"

text \<open>
  The process and its surroundings: the files by path, the environment variables, the
  calls made so far, the heap (the maps, slices and pointed-to values that the
  reference-typed fields of a Document point to), and whatever else the outside holds
  (the user, the network). A Document value \<open>'d\<close> is the struct itself: its
  reference-typed fields are references into the heap.
\<close>

record ('d, 'h, 'x) world =
  files :: "string \<Rightarrow> string option"
  environ :: "string \<Rightarrow> string option"
  trace :: "'d event list"
  heap :: 'h
  ext :: 'x

definition emit :: "'d event \<Rightarrow> ('d, 'h, 'x) world \<Rightarrow> ('d, 'h, 'x) world" where
  "emit ev w = w\<lparr>trace := trace w @ [ev]\<rparr>"

text \<open>
  External collaborators of \<open>editFile\<close> and \<open>EditLoop\<close>: the template renderer
  (\<open>tmpTemplate\<close>), \<open>shellquote.Split\<close> (its error is dropped by the caller), the editor
  subprocess (\<open>cmd.Run\<close>), the user at the prompt, \<open>copier.Copy\<close>, and the YAML codec
  with \<open>yamlFixup\<close>. \<open>copierFail to from\<close> is \<open>None\<close> when the copy succeeds and
  otherwise the error with the state the destination is left in. \<open>yamlPopulate\<close> is
  \<open>yaml.Unmarshal\<close> into the typed Document: it decodes into the struct and into the
  heap objects its fields point to (an existing map receives the decoded keys), and it
  returns the struct and the heap as it leaves them, also when it fails half way.
\<close>

record ('i, 'd, 'r, 'h, 'x) env =
  tmpTemplate :: "string \<Rightarrow> 'i \<Rightarrow> ('d, 'h, 'x) world \<Rightarrow> (error + string) \<times> ('d, 'h, 'x) world"
  shellquoteSplit :: "string \<Rightarrow> string list"
  cmdRun :: "string list \<Rightarrow> ('d, 'h, 'x) world \<Rightarrow> error option \<times> ('d, 'h, 'x) world"
  userReply :: "string \<Rightarrow> ('d, 'h, 'x) world \<Rightarrow> reply \<times> ('d, 'h, 'x) world"
  docZero :: 'd
  copierFail :: "'d \<Rightarrow> 'd \<Rightarrow> (error \<times> 'd) option"
  yamlParse :: "string \<Rightarrow> error + 'r"
  yamlFixup :: "'r \<Rightarrow> 'r"
  yamlMarshal :: "'r \<Rightarrow> error + string"
  yamlPopulate :: "string \<Rightarrow> 'd \<Rightarrow> 'h \<Rightarrow> error option \<times> 'd \<times> 'h"

section \<open>editFile\<close>

subsection \<open>Resolving the editor (lines 203-209)\<close>

definition os_Getenv :: "('d, 'h, 'x) world \<Rightarrow> string \<Rightarrow> string" where
  "os_Getenv w k = (case environ w k of None \<Rightarrow> [] | Some v \<Rightarrow> v)"

text \<open>
  \<open>for _, ed := range candidates { if ed != "" { editor = ed; break } }\<close>, with
  \<open>editor\<close> the variable assigned by the loop.
\<close>

fun pickEditor :: "string list \<Rightarrow> string \<Rightarrow> string" where
  "pickEditor [] editor = editor"
| "pickEditor (ed # rest) editor = (if ed \<noteq> [] then ed else pickEditor rest editor)"

definition resolveEditor :: "CommonOptions \<Rightarrow> ('d, 'h, 'x) world \<Rightarrow> string" where
  "resolveEditor opts w =
     pickEditor [Editor opts, os_Getenv w ''JIRA_EDITOR'', os_Getenv w ''EDITOR'', ''vim''] []"

subsection \<open>Files\<close>

text \<open>
  Modelled from the spec: \<open>copyFile\<close> is defined elsewhere in the package. It copies the
  bytes of \<open>src\<close> to the path \<open>dst\<close> ("Back up EditableFile's current bytes first (copy to
  a sibling path)") and fails when \<open>src\<close> cannot be opened.
\<close>

definition copyFile :: "string \<Rightarrow> string \<Rightarrow> ('d, 'h, 'x) world \<Rightarrow> error option \<times> ('d, 'h, 'x) world" where
  "copyFile src dst w =
     (case files w src of
        None \<Rightarrow> (Some (NotExist src), w)
      | Some b \<Rightarrow> (None, emit (EvCopyFile src dst) (w\<lparr>files := (files w)(dst \<mapsto> b)\<rparr>)))"

text \<open>\<open>os.Remove\<close>; the caller drops its error.\<close>

definition os_Remove :: "string \<Rightarrow> ('d, 'h, 'x) world \<Rightarrow> ('d, 'h, 'x) world" where
  "os_Remove p w = emit (EvRemove p) (w\<lparr>files := (files w)(p := None)\<rparr>)"

text \<open>
  \<open>os.Open\<close> gives a handle, here the bytes not yet read. \<open>Stat().Size()\<close> of a fresh
  handle is the length of the file.
\<close>

definition os_Open :: "('d, 'h, 'x) world \<Rightarrow> string \<Rightarrow> error + string" where
  "os_Open w p = (case files w p of None \<Rightarrow> Inl (NotExist p) | Some b \<Rightarrow> Inr b)"

text \<open>
  \<open>handle.Read(buf)\<close> with \<open>len(buf) = n\<close>: the bytes read, the error, the handle after.
  At end of file it reads nothing and returns \<open>io.EOF\<close>.
\<close>

definition file_Read :: "nat \<Rightarrow> string \<Rightarrow> string \<times> error option \<times> string" where
  "file_Read n h = (if h = [] then ([], Some EOF, h) else (take n h, None, drop n h))"

subsection \<open>The DIFF step (lines 233-262)\<close>

text \<open>
  \<open>for err != io.EOF { oldCount, _ = oldHandle.Read(oldBuf); newCount, err = newHandle.Read(newBuf); ... }\<close>
\<close>

function diffLoop :: "string \<Rightarrow> string \<Rightarrow> error option \<Rightarrow> bool \<times> error option" where
  "diffLoop oldHandle newHandle err =
     (if err \<noteq> Some EOF then
        (case file_Read 1024 oldHandle of (oldChunk, _, oldHandle') \<Rightarrow>
         case file_Read 1024 newHandle of (newChunk, err', newHandle') \<Rightarrow>
           if length oldChunk \<noteq> length newChunk then (True, None)
           else if oldChunk \<noteq> newChunk then (True, None)
           else diffLoop oldHandle' newHandle' err')
      else (False, None))"
  by pat_completeness auto
termination
  by (relation "measure (\<lambda>(old, new, err). if err = Some EOF then 0 else Suc (length new))")
     (auto simp: file_Read_def split: if_splits)

definition diffFiles :: "('d, 'h, 'x) world \<Rightarrow> string \<Rightarrow> string \<Rightarrow> bool \<times> error option" where
  "diffFiles w tmpFileNameOrig fileName =
     (case os_Open w tmpFileNameOrig of
        Inl err \<Rightarrow> (False, Some err)
      | Inr oldHandle \<Rightarrow>
         (case os_Open w fileName of
            Inl err \<Rightarrow> (False, Some err)
          | Inr newHandle \<Rightarrow>
              if length oldHandle \<noteq> length newHandle then (True, None)
              else diffLoop oldHandle newHandle None))"

subsection \<open>Running the editor (lines 210-231)\<close>

text \<open>\<open>cmd.Run()\<close> of the editor process; the call is recorded.\<close>

definition exec_Run ::
  "('i, 'd, 'r, 'h, 'x) env \<Rightarrow> string list \<Rightarrow> ('d, 'h, 'x) world \<Rightarrow> error option \<times> ('d, 'h, 'x) world" where
  "exec_Run E argv w =
     (case cmdRun E argv w of (err, w') \<Rightarrow> (err, w'\<lparr>trace := trace w @ [EvExec argv]\<rparr>))"

text \<open>
  The part of \<open>editFile\<close> that runs under the deferred \<open>os.Remove(tmpFileNameOrig)\<close>:
  build the command line, run it, and diff.
\<close>

definition editFile_run ::
  "('i, 'd, 'r, 'h, 'x) env \<Rightarrow> string \<Rightarrow> string \<Rightarrow> string \<Rightarrow> ('d, 'h, 'x) world
     \<Rightarrow> (bool \<times> error option) \<times> ('d, 'h, 'x) world" where
  "editFile_run E editor fileName tmpFileNameOrig w =
     (let shell = shellquoteSplit E editor @ [fileName] in
      case exec_Run E shell w of
        (Some err, w') \<Rightarrow> ((False, Some err), w')
      | (None, w') \<Rightarrow> (diffFiles w' tmpFileNameOrig fileName, w'))"

definition editFile ::
  "('i, 'd, 'r, 'h, 'x) env \<Rightarrow> CommonOptions \<Rightarrow> string \<Rightarrow> ('d, 'h, 'x) world
     \<Rightarrow> (bool \<times> error option) \<times> ('d, 'h, 'x) world" where
  "editFile E opts fileName w =
     (let editor = resolveEditor opts w in
      if SkipEditing opts then ((False, None), w)
      else
        let tmpFileNameOrig = fileName @ ''.orig'' in
        case copyFile fileName tmpFileNameOrig w of
          (Some err, w1) \<Rightarrow> ((False, Some err), w1)
        | (None, w1) \<Rightarrow>
            (case editFile_run E editor fileName tmpFileNameOrig w1 of
               (res, w2) \<Rightarrow> (res, os_Remove tmpFileNameOrig w2)))"

section \<open>EditLoop\<close>

text \<open>
  The \<open>confirm\<close> closure (lines 271-278): the named result \<open>answer\<close> starts as
  \<open>false\<close>; \<open>survey.AskOne\<close> with \<open>Default: true\<close> writes it unless it fails, and its
  error is dropped.
\<close>

definition survey_AskOne :: "bool \<Rightarrow> reply \<Rightarrow> bool option" where
  "survey_AskOne dflt r =
     (case r of Yes \<Rightarrow> Some True | No \<Rightarrow> Some False | Blank \<Rightarrow> Some dflt | NoAnswer \<Rightarrow> None)"

definition confirm ::
  "('i, 'd, 'r, 'h, 'x) env \<Rightarrow> string \<Rightarrow> ('d, 'h, 'x) world \<Rightarrow> bool \<times> ('d, 'h, 'x) world" where
  "confirm E msg w =
     (case userReply E msg w of (r, w') \<Rightarrow>
        let answer = False;
            answer = (case survey_AskOne True r of Some a \<Rightarrow> a | None \<Rightarrow> answer)
        in (answer, w'\<lparr>trace := trace w @ [EvConfirm msg r]\<rparr>))"

definition log_Error :: "error \<Rightarrow> ('d, 'h, 'x) world \<Rightarrow> ('d, 'h, 'x) world" where
  "log_Error err w = emit (EvLogError err) w"

definition ioutil_ReadFile :: "string \<Rightarrow> ('d, 'h, 'x) world \<Rightarrow> (error + string) \<times> ('d, 'h, 'x) world" where
  "ioutil_ReadFile p w = (os_Open w p, emit (EvReadFile p) w)"

text \<open>
  \<open>copier.Copy(to, from)\<close>: the error and the destination afterwards. A successful copy
  assigns the struct: the destination's reference-typed fields then are the source's
  references, to the same heap objects. The heap itself is not copied.
\<close>

definition copier_Copy :: "('i, 'd, 'r, 'h, 'x) env \<Rightarrow> 'd \<Rightarrow> 'd \<Rightarrow> error option \<times> 'd" where
  "copier_Copy E to from =
     (case copierFail E to from of None \<Rightarrow> (None, from) | Some (err, to') \<Rightarrow> (Some err, to'))"

definition call_tmpTemplate ::
  "('i, 'd, 'r, 'h, 'x) env \<Rightarrow> string \<Rightarrow> 'i \<Rightarrow> ('d, 'h, 'x) world \<Rightarrow> (error + string) \<times> ('d, 'h, 'x) world" where
  "call_tmpTemplate E name input w =
     (case tmpTemplate E name input w of (res, w') \<Rightarrow> (res, w'\<lparr>trace := trace w @ [EvRender name]\<rparr>))"

definition call_submit ::
  "('d \<Rightarrow> ('d, 'h, 'x) world \<Rightarrow> error option \<times> ('d, 'h, 'x) world) \<Rightarrow> 'd \<Rightarrow> ('d, 'h, 'x) world
     \<Rightarrow> error option \<times> ('d, 'h, 'x) world" where
  "call_submit submit output w =
     (case submit output w of (err, w') \<Rightarrow> (err, w'\<lparr>trace := trace w @ [EvSubmit output err]\<rparr>))"

text \<open>How one pass through the body of \<open>for { ... }\<close> ends.\<close>

datatype step = Continue | Break | ReturnErr error | PanicExit Exit

text \<open>
  \<open>log.Error(err.Error()); if confirm(msg) { continue }; panic(Exit{Code: 1})\<close>
\<close>

definition retryOrExit ::
  "('i, 'd, 'r, 'h, 'x) env \<Rightarrow> error \<Rightarrow> string \<Rightarrow> ('d, 'h, 'x) world \<Rightarrow> step \<times> ('d, 'h, 'x) world" where
  "retryOrExit E err msg w =
     (case confirm E msg (log_Error err w) of
        (True, w') \<Rightarrow> (Continue, w')
      | (False, w') \<Rightarrow> (PanicExit \<lparr>Code = 1\<rparr>, w'))"

text \<open>Lines 290-304; \<open>None\<close> when control goes on to the parse.\<close>

definition editStage ::
  "('i, 'd, 'r, 'h, 'x) env \<Rightarrow> CommonOptions \<Rightarrow> string \<Rightarrow> ('d, 'h, 'x) world
     \<Rightarrow> step option \<times> ('d, 'h, 'x) world" where
  "editStage E opts tmpFile w =
     (if \<not> SkipEditing opts then
        (case editFile E opts tmpFile w of
           ((changes, Some err), w1) \<Rightarrow>
             (case retryOrExit E err ''Editor reported an error, edit again?'' w1 of
                (st, w2) \<Rightarrow> (Some st, w2))
         | ((changes, None), w1) \<Rightarrow>
             if \<not> changes then
               (case confirm E ''No changes detected, submit anyway?'' w1 of
                  (False, w2) \<Rightarrow> (Some (PanicExit \<lparr>Code = 1\<rparr>), w2)
                | (True, w2) \<Rightarrow> (None, w2))
             else (None, w1))
      else (None, w))"

text \<open>
  Lines 306-355: read the file, restore \<open>output\<close> from \<open>dup\<close>, parse, fix up,
  serialise, populate. (The deferred reset of the yaml package's two type variables
  concerns the codec only, which is a parameter here.)
\<close>

definition parseStage ::
  "('i, 'd, 'r, 'h, 'x) env \<Rightarrow> string \<Rightarrow> 'd \<Rightarrow> 'd \<Rightarrow> ('d, 'h, 'x) world
     \<Rightarrow> step option \<times> 'd \<times> ('d, 'h, 'x) world" where
  "parseStage E tmpFile dup output w =
     (case ioutil_ReadFile tmpFile w of
        (Inl err, w1) \<Rightarrow> (Some (ReturnErr err), output, w1)
      | (Inr data, w1) \<Rightarrow>
         (case copier_Copy E output dup of
            (Some err, output1) \<Rightarrow> (Some (ReturnErr err), output1, w1)
          | (None, output1) \<Rightarrow>
             (case yamlParse E data of
                Inl err \<Rightarrow>
                  (case retryOrExit E err ''Invalid YAML syntax, edit again?'' w1 of
                     (st, w2) \<Rightarrow> (Some st, output1, w2))
              | Inr raw \<Rightarrow>
                 (case yamlMarshal E (yamlFixup E raw) of
                    Inl err \<Rightarrow>
                      (case retryOrExit E err ''Invalid YAML syntax, edit again?'' w1 of
                         (st, w2) \<Rightarrow> (Some st, output1, w2))
                  | Inr fixedYAML \<Rightarrow>
                     (case yamlPopulate E fixedYAML output1 (heap w1) of
                        (Some err, output2, h2) \<Rightarrow>
                          (case retryOrExit E err ''Invalid YAML syntax, edit again?''
                                  (emit (EvPopulate output1 fixedYAML) (w1\<lparr>heap := h2\<rparr>)) of
                             (st, w2) \<Rightarrow> (Some st, output2, w2))
                      | (None, output2, h2) \<Rightarrow>
                          (None, output2, emit (EvPopulate output1 fixedYAML) (w1\<lparr>heap := h2\<rparr>)))))))"

text \<open>Lines 356-364.\<close>

definition submitStage ::
  "('i, 'd, 'r, 'h, 'x) env \<Rightarrow> ('d \<Rightarrow> ('d, 'h, 'x) world \<Rightarrow> error option \<times> ('d, 'h, 'x) world) \<Rightarrow> 'd
     \<Rightarrow> ('d, 'h, 'x) world \<Rightarrow> step \<times> ('d, 'h, 'x) world" where
  "submitStage E submit output w =
     (case call_submit submit output w of
        (Some err, w1) \<Rightarrow> retryOrExit E err ''Jira reported an error, edit again?'' w1
      | (None, w1) \<Rightarrow> (Break, w1))"

text \<open>One pass through the loop body.\<close>

definition loopBody ::
  "('i, 'd, 'r, 'h, 'x) env \<Rightarrow> CommonOptions \<Rightarrow> string \<Rightarrow> 'd
     \<Rightarrow> ('d \<Rightarrow> ('d, 'h, 'x) world \<Rightarrow> error option \<times> ('d, 'h, 'x) world)
     \<Rightarrow> 'd \<Rightarrow> ('d, 'h, 'x) world \<Rightarrow> step \<times> 'd \<times> ('d, 'h, 'x) world" where
  "loopBody E opts tmpFile dup submit output w =
     (case editStage E opts tmpFile w of
        (Some st, w1) \<Rightarrow> (st, output, w1)
      | (None, w1) \<Rightarrow>
         (case parseStage E tmpFile dup output w1 of
            (Some st, output1, w2) \<Rightarrow> (st, output1, w2)
          | (None, output1, w2) \<Rightarrow>
             (case submitStage E submit output1 w2 of (st, w3) \<Rightarrow> (st, output1, w3))))"

text \<open>
  The loop, with the number of passes it may still make. The result is \<open>None\<close> while the
  loop has not ended, together with the Document and the world reached so far.
\<close>

fun editLoop_for ::
  "nat \<Rightarrow> ('i, 'd, 'r, 'h, 'x) env \<Rightarrow> CommonOptions \<Rightarrow> string \<Rightarrow> 'd
     \<Rightarrow> ('d \<Rightarrow> ('d, 'h, 'x) world \<Rightarrow> error option \<times> ('d, 'h, 'x) world)
     \<Rightarrow> 'd \<Rightarrow> ('d, 'h, 'x) world \<Rightarrow> error option outcome option \<times> 'd \<times> ('d, 'h, 'x) world" where
  "editLoop_for 0 E opts tmpFile dup submit output w = (None, output, w)"
| "editLoop_for (Suc n) E opts tmpFile dup submit output w =
     (case loopBody E opts tmpFile dup submit output w of
        (Continue, output', w') \<Rightarrow> editLoop_for n E opts tmpFile dup submit output' w'
      | (Break, output', w') \<Rightarrow> (Some (Returned None), output', w')
      | (ReturnErr err, output', w') \<Rightarrow> (Some (Returned (Some err)), output', w')
      | (PanicExit x, output', w') \<Rightarrow> (Some (Panicked x), output', w'))"

definition EditLoop ::
  "nat \<Rightarrow> ('i, 'd, 'r, 'h, 'x) env \<Rightarrow> CommonOptions \<Rightarrow> 'i \<Rightarrow> 'd
     \<Rightarrow> ('d \<Rightarrow> ('d, 'h, 'x) world \<Rightarrow> error option \<times> ('d, 'h, 'x) world)
     \<Rightarrow> ('d, 'h, 'x) world \<Rightarrow> error option outcome option \<times> 'd \<times> ('d, 'h, 'x) world" where
  "EditLoop n E opts input output submit w =
     (case call_tmpTemplate E (Template opts) input w of
        (Inl err, w1) \<Rightarrow> (Some (Returned (Some err)), output, w1)
      | (Inr tmpFile, w1) \<Rightarrow>
         (case copier_Copy E (docZero E) output of
            (Some err, dup) \<Rightarrow> (Some (Returned (Some err)), output, w1)
          | (None, dup) \<Rightarrow> editLoop_for n E opts tmpFile dup submit output w1))"

text \<open>The calls made between two worlds of one run.\<close>

definition events_since :: "('d, 'h, 'x) world \<Rightarrow> ('d, 'h, 'x) world \<Rightarrow> 'd event list" where
  "events_since w w' = drop (length (trace w)) (trace w')"

definition extends :: "('d event \<Rightarrow> bool) \<Rightarrow> ('d, 'h, 'x) world \<Rightarrow> ('d, 'h, 'x) world \<Rightarrow> bool" where
  "extends P w w' \<longleftrightarrow> (\<exists>evs. trace w' = trace w @ evs \<and> list_all P evs)"

section \<open>The post-callback installed by Register (lines 95-114)\<close>

record GlobalOptions =
  Endpoint :: string
  Insecure :: bool
  PasswordSource :: string
  Quiet :: bool
  UnixProxy :: string
  User :: string

text \<open>
  An \<open>http.Response\<close> as far as the hook reads it; \<open>http.Header\<close> is a
  \<open>map[string][]string\<close>.
\<close>

record 'b Response =
  StatusCode :: int
  Header :: "string \<Rightarrow> string list option"
  Body :: 'b

text \<open>
  \<open>Header.Get\<close>: the first value stored under the key, \<open>""\<close> when there is none.
  (The key \<open>X-Ausername\<close> is already in canonical form.)
\<close>

definition Header_Get :: "(string \<Rightarrow> string list option) \<Rightarrow> string \<Rightarrow> string" where
  "Header_Get h key = (case h key of None \<Rightarrow> [] | Some [] \<Rightarrow> [] | Some (v # _) \<Rightarrow> v)"

text \<open>
  The calls the hook makes: the login command, with the value the quiet flag has when it
  starts, and the replay of a request.
\<close>

datatype 'q call = CallLogin bool | CallDo 'q

record ('q, 'x) session =
  globals :: GlobalOptions
  calls :: "'q call list"
  net :: 'x

text \<open>
  \<open>app.Parse([]string{"login"})\<close> and \<open>o.Do(req)\<close> are external: each may change the
  globals and the outside, return or panic. The hook drops what \<open>app.Parse\<close> returns.
\<close>

definition call_login ::
  "(('q, 'x) session \<Rightarrow> error option outcome \<times> ('q, 'x) session) \<Rightarrow> ('q, 'x) session
     \<Rightarrow> error option outcome \<times> ('q, 'x) session" where
  "call_login login s =
     (case login s of (r, s') \<Rightarrow> (r, s'\<lparr>calls := calls s @ [CallLogin (Quiet (globals s))]\<rparr>))"

definition call_Do ::
  "('q \<Rightarrow> ('q, 'x) session \<Rightarrow> ('b Response option \<times> error option) outcome \<times> ('q, 'x) session)
     \<Rightarrow> 'q \<Rightarrow> ('q, 'x) session
     \<Rightarrow> ('b Response option \<times> error option) outcome \<times> ('q, 'x) session" where
  "call_Do Do req s =
     (case Do req s of (r, s') \<Rightarrow> (r, s'\<lparr>calls := calls s @ [CallDo req]\<rparr>))"

definition setQuiet :: "bool \<Rightarrow> ('q, 'x) session \<Rightarrow> ('q, 'x) session" where
  "setQuiet q s = s\<lparr>globals := (globals s)\<lparr>Quiet := q\<rparr>\<rparr>"

text \<open>
  The hook. The deferred function takes the quiet flag's value at the \<open>defer\<close>
  statement as its argument and writes it back when the hook returns or panics.
\<close>

definition postCallback ::
  "(('q, 'x) session \<Rightarrow> error option outcome \<times> ('q, 'x) session)
     \<Rightarrow> ('q \<Rightarrow> ('q, 'x) session \<Rightarrow> ('b Response option \<times> error option) outcome \<times> ('q, 'x) session)
     \<Rightarrow> 'q \<Rightarrow> 'b Response \<Rightarrow> ('q, 'x) session
     \<Rightarrow> ('b Response option \<times> error option) outcome \<times> ('q, 'x) session" where
  "postCallback login Do req resp s =
     (let authUser = Header_Get (Header resp) ''X-Ausername'' in
      if authUser = [] \<or> authUser = ''anonymous'' then
        (let quiet = Quiet (globals s);
             s1 = setQuiet True s
         in case call_login login s1 of
              (Panicked x, s2) \<Rightarrow> (Panicked x, setQuiet quiet s2)
            | (Returned _, s2) \<Rightarrow>
                (case call_Do Do req s2 of (r, s3) \<Rightarrow> (r, setQuiet quiet s3)))
      else (Returned (Some resp, None), s))"

section \<open>Classes of calls, by the part of the loop body that makes them\<close>

definition editEvent :: "string \<Rightarrow> 'd event \<Rightarrow> bool" where
  "editEvent tmpFile ev \<longleftrightarrow>
     ev = EvCopyFile tmpFile (tmpFile @ ''.orig'')
     \<or> ev = EvRemove (tmpFile @ ''.orig'')
     \<or> (\<exists>argv. ev = EvExec (argv @ [tmpFile]))
     \<or> (\<exists>e. ev = EvLogError e)
     \<or> (\<exists>r. ev = EvConfirm ''Editor reported an error, edit again?'' r)
     \<or> (\<exists>r. ev = EvConfirm ''No changes detected, submit anyway?'' r)"

definition parseEvent :: "'d \<Rightarrow> string \<Rightarrow> 'd event \<Rightarrow> bool" where
  "parseEvent dup tmpFile ev \<longleftrightarrow>
     ev = EvReadFile tmpFile
     \<or> (\<exists>b. ev = EvPopulate dup b)
     \<or> (\<exists>e. ev = EvLogError e)
     \<or> (\<exists>r. ev = EvConfirm ''Invalid YAML syntax, edit again?'' r)"

definition submitEvent :: "'d event \<Rightarrow> bool" where
  "submitEvent ev \<longleftrightarrow>
     (\<exists>d res. ev = EvSubmit d res)
     \<or> (\<exists>e. ev = EvLogError e)
     \<or> (\<exists>r. ev = EvConfirm ''Jira reported an error, edit again?'' r)"

definition loopEvent ::
  "('i, 'd, 'r, 'h, 'x) env \<Rightarrow> CommonOptions \<Rightarrow> string \<Rightarrow> 'd \<Rightarrow> 'd event \<Rightarrow> bool" where
  "loopEvent E opts tmpFile dup ev \<longleftrightarrow>
     (\<not> SkipEditing opts \<and> editEvent tmpFile ev) \<or> parseEvent dup tmpFile ev \<or> submitEvent ev"

section \<open>Worked instances\<close>

text \<open>
  Concrete files, options and collaborators on which the properties below are run.
\<close>

definition demoFiles :: "string \<Rightarrow> string option" where
  "demoFiles = [''a.orig'' \<mapsto> ''summary: x'', ''a'' \<mapsto> ''summary: xy'',
                ''b.orig'' \<mapsto> replicate 1500 (CHR ''-'') @ ''x'',
                ''b'' \<mapsto> replicate 1500 (CHR ''-'') @ ''y'',
                ''c.orig'' \<mapsto> ''summary: x'', ''c'' \<mapsto> ''summary: x'']"

text \<open>
  In the worked instances below the Document is a list of accepted lines with no
  reference-typed field (the heap is empty), the raw tree is the text itself, and the
  outside holds what the user will do at the coming prompts.
\<close>

definition demoWorld :: "(string list, unit, reply list) world" where
  "demoWorld = \<lparr>files = demoFiles, environ = [''EDITOR'' \<mapsto> ''nano''], trace = [], heap = (),
                 ext = []\<rparr>"

definition demoOpts :: CommonOptions where
  "demoOpts = \<lparr>Browse = False, Editor = [], JsonQuery = [], JsonQueryRaw = False,
               SkipEditing = False, Template = ''edit''\<rparr>"

definition demoGlobals :: GlobalOptions where
  "demoGlobals = \<lparr>Endpoint = ''https://jira.example'', Insecure = False, PasswordSource = [],
                  Quiet = False, UnixProxy = [], User = ''bob''\<rparr>"

definition demoSession :: "(string, unit) session" where
  "demoSession = \<lparr>globals = demoGlobals, calls = [], net = ()\<rparr>"

definition respFrom :: "string list option \<Rightarrow> string Response" where
  "respFrom vs = \<lparr>StatusCode = 200, Header = (\<lambda>k. if k = ''X-Ausername'' then vs else None),
                   Body = ''{}''\<rparr>"

text \<open>
  A login that reports an error and leaves the quiet flag switched off, one that
  succeeds, one that panics; a replay that is answered and one that fails.
\<close>

definition loginFails :: "(string, unit) session \<Rightarrow> error option outcome \<times> (string, unit) session" where
  "loginFails s = (Returned (Some (Failure ''login failed'')), setQuiet False s)"

definition loginOk :: "(string, unit) session \<Rightarrow> error option outcome \<times> (string, unit) session" where
  "loginOk s = (Returned None, s)"

definition loginPanics :: "(string, unit) session \<Rightarrow> error option outcome \<times> (string, unit) session" where
  "loginPanics s = (Panicked \<lparr>Code = 1\<rparr>, setQuiet False s)"

definition replayOk ::
  "string \<Rightarrow> (string, unit) session
     \<Rightarrow> (string Response option \<times> error option) outcome \<times> (string, unit) session" where
  "replayOk req s = (Returned (Some (respFrom (Some [''bob''])), None), s)"

definition replayFails ::
  "string \<Rightarrow> (string, unit) session
     \<Rightarrow> (string Response option \<times> error option) outcome \<times> (string, unit) session" where
  "replayFails req s = (Returned (None, Some (Failure ''connection refused'')), setQuiet False s)"

text \<open>
  The renderer writes its input to \<open>/tmp/t.yml\<close>; the editor appends \<open>!\<close> to the file
  it is given; the user answers from the script and then presses return; the codec
  rejects the empty text, and populating fails on \<open>summary: x!\<close>, leaving a stray line
  behind.
\<close>

definition demoRender ::
  "string \<Rightarrow> string \<Rightarrow> (string list, unit, reply list) world
     \<Rightarrow> (error + string) \<times> (string list, unit, reply list) world" where
  "demoRender name input w = (Inr ''/tmp/t.yml'', w\<lparr>files := (files w)(''/tmp/t.yml'' \<mapsto> input)\<rparr>)"

definition demoEditor ::
  "string list \<Rightarrow> (string list, unit, reply list) world \<Rightarrow> error option \<times> (string list, unit, reply list) world" where
  "demoEditor argv w =
     (case files w (last argv) of
        None \<Rightarrow> (Some (Failure ''no such file''), w)
      | Some b \<Rightarrow> (None, w\<lparr>files := (files w)(last argv \<mapsto> b @ ''!'')\<rparr>))"

definition demoUser ::
  "string \<Rightarrow> (string list, unit, reply list) world \<Rightarrow> reply \<times> (string list, unit, reply list) world" where
  "demoUser msg w = (case ext w of [] \<Rightarrow> (Blank, w) | r # rs \<Rightarrow> (r, w\<lparr>ext := rs\<rparr>))"

definition demoPopulate ::
  "string \<Rightarrow> string list \<Rightarrow> unit \<Rightarrow> error option \<times> string list \<times> unit" where
  "demoPopulate fixed d h =
     (if fixed = ''summary: x!'' then (Some (Failure ''unknown field''), d @ [''half''], h)
      else (None, d @ [fixed], h))"

definition demoEnv :: "(string, string list, string, unit, reply list) env" where
  "demoEnv = \<lparr>tmpTemplate = demoRender, shellquoteSplit = (\<lambda>ed. [ed]), cmdRun = demoEditor,
               userReply = demoUser, docZero = [], copierFail = (\<lambda>to from. None),
               yamlParse = (\<lambda>data. if data = [] then Inl (Failure ''empty document'') else Inr data),
               yamlFixup = (\<lambda>raw. raw), yamlMarshal = Inr, yamlPopulate = demoPopulate\<rparr>"

text \<open>The service accepts exactly the Document \<open>[summary: x!!!]\<close>.\<close>

definition demoSubmit ::
  "string list \<Rightarrow> (string list, unit, reply list) world \<Rightarrow> error option \<times> (string list, unit, reply list) world" where
  "demoSubmit d w = (if d = [''summary: x!!!''] then (None, w) else (Some (Failure ''rejected''), w))"

text \<open>An editor that leaves the file as it is.\<close>

definition idleEditor ::
  "string list \<Rightarrow> (string list, unit, reply list) world \<Rightarrow> error option \<times> (string list, unit, reply list) world" where
  "idleEditor argv w = (None, w)"

text \<open>A populate that accepts every text, and the options with editing skipped.\<close>

definition plainPopulate ::
  "string \<Rightarrow> string list \<Rightarrow> unit \<Rightarrow> error option \<times> string list \<times> unit" where
  "plainPopulate fixed d h = (None, d @ [fixed], h)"

definition skipOpts :: CommonOptions where
  "skipOpts = demoOpts\<lparr>SkipEditing := True\<rparr>"

text \<open>An editor that retypes the last byte of the file, keeping its length.\<close>

definition retypeEditor ::
  "string list \<Rightarrow> (string list, unit, reply list) world
     \<Rightarrow> error option \<times> (string list, unit, reply list) world" where
  "retypeEditor argv w =
     (case files w (last argv) of
        None \<Rightarrow> (Some (Failure ''no such file''), w)
      | Some b \<Rightarrow> (None, w\<lparr>files := (files w)(last argv \<mapsto> butlast b @ ''?'')\<rparr>))"












section \<open>Properties\<close>

declare diffLoop.simps [simp del]

subsection \<open>The DIFF step\<close>

lemma diffLoop_eq: "err \<noteq> Some EOF \<Longrightarrow> diffLoop old new err = (old \<noteq> new, None)"
proof (induction old new err rule: diffLoop.induct)
  case (1 old new err)
  show ?case
  proof (cases "new = []")
    case True
    then show ?thesis using "1.prems"
      by (cases "old = []") (subst diffLoop.simps, simp add: file_Read_def)+
  next
    case new: False
    show ?thesis
    proof (cases "old = []")
      case True
      then show ?thesis using new "1.prems" by (subst diffLoop.simps) (simp add: file_Read_def)
    next
      case old: False
      have parts: "old = new \<longleftrightarrow> take 1024 old = take 1024 new \<and> drop 1024 old = drop 1024 new"
        by (metis append_take_drop_id)
      show ?thesis
      proof (cases "take 1024 old = take 1024 new")
        case True
        have "diffLoop (drop 1024 old) (drop 1024 new) None = (drop 1024 old \<noteq> drop 1024 new, None)"
          using "1.IH" [OF "1.prems", of "take 1024 old" "(None, drop 1024 old)" None "drop 1024 old"
                          "take 1024 new" "(None, drop 1024 new)" None "drop 1024 new"]
                old new True
          by (simp add: file_Read_def)
        then show ?thesis using "1.prems" old new True parts
          by (subst diffLoop.simps) (simp add: file_Read_def)
      next
        case False
        then show ?thesis using "1.prems" old new parts
          by (subst diffLoop.simps) (simp add: file_Read_def)
      qed
    qed
  qed
qed

lemma diffFiles_eq:
  "files w orig = Some old \<Longrightarrow> files w name = Some new
     \<Longrightarrow> diffFiles w orig name = (old \<noteq> new, None)"
  by (auto simp: diffFiles_def os_Open_def diffLoop_eq)

subsection \<open>The re-authentication hook\<close>

lemma calls_setQuiet [simp]: "calls (setQuiet q s) = calls s"
  by (simp add: setQuiet_def)

lemma Quiet_setQuiet [simp]: "Quiet (globals (setQuiet q s)) = q"
  by (simp add: setQuiet_def)

lemma postCallback_authenticated:
  "Header_Get (Header resp) ''X-Ausername'' \<noteq> [] \<Longrightarrow>
   Header_Get (Header resp) ''X-Ausername'' \<noteq> ''anonymous'' \<Longrightarrow>
   postCallback login Do req resp s = (Returned (Some resp, None), s)"
  by (simp add: postCallback_def)

lemma postCallback_replay:
  assumes "Header_Get (Header resp) ''X-Ausername'' = [] \<or>
           Header_Get (Header resp) ''X-Ausername'' = ''anonymous''"
      and "call_login login (setQuiet True s) = (Returned e, s2)"
  shows "postCallback login Do req resp s =
           (fst (call_Do Do req s2), setQuiet (Quiet (globals s)) (snd (call_Do Do req s2)))"
  using assms by (auto simp: postCallback_def Let_def split: prod.splits)

lemma postCallback_panic:
  assumes "Header_Get (Header resp) ''X-Ausername'' = [] \<or>
           Header_Get (Header resp) ''X-Ausername'' = ''anonymous''"
      and "call_login login (setQuiet True s) = (Panicked x, s2)"
  shows "postCallback login Do req resp s = (Panicked x, setQuiet (Quiet (globals s)) s2)"
  using assms by (auto simp: postCallback_def Let_def split: prod.splits)

lemma calls_call_login: "calls (snd (call_login login s)) = calls s @ [CallLogin (Quiet (globals s))]"
  by (simp add: call_login_def split: prod.splits)

lemma calls_call_Do: "calls (snd (call_Do Do req s)) = calls s @ [CallDo req]"
  by (simp add: call_Do_def split: prod.splits)

text \<open>
  C2, as the code has it. What the login command returns is dropped: when it returns,
  with an error or without, the request is replayed once and the hook returns what the
  replay returns.
\<close>

theorem login_result_dropped:
  assumes "Header_Get (Header resp) ''X-Ausername'' = [] \<or>
           Header_Get (Header resp) ''X-Ausername'' = ''anonymous''"
      and "call_login login (setQuiet True s) = (Returned e, s2)"
  shows "fst (postCallback login Do req resp s) = fst (call_Do Do req s2)
       \<and> calls (snd (postCallback login Do req resp s)) = calls s @ [CallLogin True, CallDo req]"
proof -
  have "calls s2 = calls s @ [CallLogin True]"
    using calls_call_login [of login "setQuiet True s"] assms(2) by simp
  then show ?thesis
    by (simp add: postCallback_replay [OF assms] calls_call_Do)
qed

text \<open>C2 run with a login that fails and a replay that is answered.\<close>

theorem login_result_dropped_witness:
  "fst (postCallback loginFails replayOk ''GET /issue/1'' (respFrom None) demoSession)
     = Returned (Some (respFrom (Some [''bob''])), None)
   \<and> calls (snd (postCallback loginFails replayOk ''GET /issue/1'' (respFrom None) demoSession))
     = [CallLogin True, CallDo ''GET /issue/1'']"
proof -
  have h: "Header_Get (Header (respFrom None)) ''X-Ausername'' = [] \<or>
           Header_Get (Header (respFrom None)) ''X-Ausername'' = ''anonymous''"
    by (simp add: Header_Get_def respFrom_def)
  have l: "call_login loginFails (setQuiet True demoSession)
             = (Returned (Some (Failure ''login failed'')),
                (setQuiet False (setQuiet True demoSession))\<lparr>calls := [CallLogin True]\<rparr>)"
    by (simp add: call_login_def loginFails_def demoSession_def)
  show ?thesis
    using login_result_dropped [OF h l, of replayOk "''GET /issue/1''"]
    by (simp add: call_Do_def replayOk_def demoSession_def)
qed

text \<open>
  C2 as the specification states it does not hold: the login returns an error, yet the hook returns the replayed
  request's response and no error, and the request has been sent again.
\<close>

theorem login_error_not_returned:
  "fst (loginFails (setQuiet True demoSession)) = Returned (Some (Failure ''login failed''))
   \<and> fst (postCallback loginFails replayOk ''GET /issue/1'' (respFrom None) demoSession)
       = Returned (Some (respFrom (Some [''bob''])), None)
   \<and> CallDo ''GET /issue/1''
       \<in> set (calls (snd (postCallback loginFails replayOk ''GET /issue/1'' (respFrom None) demoSession)))"
  by (simp add: postCallback_def Header_Get_def respFrom_def call_login_def call_Do_def
        loginFails_def replayOk_def demoSession_def)

text \<open>
  C3, as the code has it. A response whose first \<open>X-Ausername\<close> value is non-empty and
  not \<open>anonymous\<close> is returned as it is, with no call made. When the header is absent,
  has no value, or its first value is empty or \<open>anonymous\<close>, the login command is run
  and, once it returns, the request is replayed and the hook returns the replay's
  outcome.
\<close>

theorem hook_dispatch:
  "(Header resp ''X-Ausername'' = Some (v # vs) \<and> v \<noteq> [] \<and> v \<noteq> ''anonymous'' \<longrightarrow>
      postCallback login Do req resp s = (Returned (Some resp, None), s))
   \<and> ((Header resp ''X-Ausername'' = None \<or> Header resp ''X-Ausername'' = Some []
        \<or> Header resp ''X-Ausername'' = Some ([] # vs)
        \<or> Header resp ''X-Ausername'' = Some (''anonymous'' # vs))
       \<and> call_login login (setQuiet True s) = (Returned e, s2) \<longrightarrow>
      fst (postCallback login Do req resp s) = fst (call_Do Do req s2)
      \<and> calls (snd (postCallback login Do req resp s)) = calls s @ [CallLogin True, CallDo req])"
proof (intro conjI impI)
  assume "Header resp ''X-Ausername'' = Some (v # vs) \<and> v \<noteq> [] \<and> v \<noteq> ''anonymous''"
  then show "postCallback login Do req resp s = (Returned (Some resp, None), s)"
    by (intro postCallback_authenticated) (simp_all add: Header_Get_def)
next
  assume a: "(Header resp ''X-Ausername'' = None \<or> Header resp ''X-Ausername'' = Some []
        \<or> Header resp ''X-Ausername'' = Some ([] # vs)
        \<or> Header resp ''X-Ausername'' = Some (''anonymous'' # vs))
       \<and> call_login login (setQuiet True s) = (Returned e, s2)"
  then have u: "Header_Get (Header resp) ''X-Ausername'' = [] \<or>
           Header_Get (Header resp) ''X-Ausername'' = ''anonymous''"
    by (auto simp: Header_Get_def)
  have c: "calls s2 = calls s @ [CallLogin True]"
    using calls_call_login [of login "setQuiet True s"] a by simp
  from a have l: "call_login login (setQuiet True s) = (Returned e, s2)" by simp
  show "fst (postCallback login Do req resp s) = fst (call_Do Do req s2)"
    by (simp add: postCallback_replay [OF u l])
  show "calls (snd (postCallback login Do req resp s)) = calls s @ [CallLogin True, CallDo req]"
    by (simp add: postCallback_replay [OF u l] calls_call_Do c)
qed

text \<open>
  C3 run on a response of user \<open>bob\<close>, and on an anonymous response whose replay fails.
\<close>

theorem hook_dispatch_witness:
  "postCallback loginOk replayFails ''GET /issue/1'' (respFrom (Some [''bob''])) demoSession
     = (Returned (Some (respFrom (Some [''bob''])), None), demoSession)
   \<and> fst (postCallback loginOk replayFails ''GET /issue/1'' (respFrom (Some [''anonymous''])) demoSession)
     = Returned (None, Some (Failure ''connection refused''))
   \<and> calls (snd (postCallback loginOk replayFails ''GET /issue/1'' (respFrom (Some [''anonymous''])) demoSession))
     = [CallLogin True, CallDo ''GET /issue/1'']"
proof -
  have l: "call_login loginOk (setQuiet True demoSession)
             = (Returned None, (setQuiet True demoSession)\<lparr>calls := [CallLogin True]\<rparr>)"
    by (simp add: call_login_def loginOk_def demoSession_def)
  have b: "Header (respFrom (Some [''bob''])) ''X-Ausername'' = Some [''bob'']"
    and a: "Header (respFrom (Some [''anonymous''])) ''X-Ausername'' = Some [''anonymous'']"
    by (simp_all add: respFrom_def)
  show ?thesis
    using hook_dispatch [of "respFrom (Some [''bob''])" "''bob''" "[]" loginOk replayFails
            "''GET /issue/1''" demoSession]
          hook_dispatch [where resp = "respFrom (Some [''anonymous''])" and vs = "[]"
            and login = loginOk and s = demoSession and e = None
            and ?s2.0 = "(setQuiet True demoSession)\<lparr>calls := [CallLogin True]\<rparr>"
            and Do = replayFails and req = "''GET /issue/1''"]
          l a b
    by (simp add: call_Do_def replayFails_def demoSession_def)
qed

text \<open>
  C3 as the specification states it does not hold where the header is present with the empty string as its value: the
  value is not \<open>anonymous\<close>, yet the hook logs in and replays, and the caller gets the
  replay's error instead of the response.
\<close>

theorem empty_identity_is_unauthenticated:
  "Header (respFrom (Some [[]])) ''X-Ausername'' = Some [[]] \<and> [] \<noteq> ''anonymous''
   \<and> fst (postCallback loginOk replayFails ''GET /issue/1'' (respFrom (Some [[]])) demoSession)
       = Returned (None, Some (Failure ''connection refused''))
   \<and> calls (snd (postCallback loginOk replayFails ''GET /issue/1'' (respFrom (Some [[]])) demoSession))
       = [CallLogin True, CallDo ''GET /issue/1'']"
  by (simp add: postCallback_def Header_Get_def respFrom_def call_login_def call_Do_def
        loginOk_def replayFails_def demoSession_def)

text \<open>
  C5. On an unauthenticated response the login command starts with the quiet flag set,
  and when the hook is left, by return or by panic, whatever the login and the replay
  did, the flag has the value it had when the hook was entered. On any other response
  the hook changes nothing.
\<close>

theorem quiet_flag_restored:
  "(Header_Get (Header resp) ''X-Ausername'' = [] \<or>
    Header_Get (Header resp) ''X-Ausername'' = ''anonymous'' \<longrightarrow>
      Quiet (globals (snd (postCallback login Do req resp s))) = Quiet (globals s)
      \<and> take 1 (drop (length (calls s)) (calls (snd (postCallback login Do req resp s))))
          = [CallLogin True])
   \<and> (Header_Get (Header resp) ''X-Ausername'' \<noteq> [] \<and>
      Header_Get (Header resp) ''X-Ausername'' \<noteq> ''anonymous'' \<longrightarrow>
      snd (postCallback login Do req resp s) = s)"
proof (intro conjI impI)
  assume u: "Header_Get (Header resp) ''X-Ausername'' = [] \<or>
             Header_Get (Header resp) ''X-Ausername'' = ''anonymous''"
  obtain r s2 where l: "call_login login (setQuiet True s) = (r, s2)"
    by (cases "call_login login (setQuiet True s)")
  have c: "calls s2 = calls s @ [CallLogin True]"
    using calls_call_login [of login "setQuiet True s"] l by simp
  show "Quiet (globals (snd (postCallback login Do req resp s))) = Quiet (globals s)"
    using l by (cases r) (simp_all add: postCallback_replay [OF u] postCallback_panic [OF u])
  show "take 1 (drop (length (calls s)) (calls (snd (postCallback login Do req resp s))))
          = [CallLogin True]"
    using l c
    by (cases r) (simp_all add: postCallback_replay [OF u] postCallback_panic [OF u] calls_call_Do)
next
  assume "Header_Get (Header resp) ''X-Ausername'' \<noteq> [] \<and>
      Header_Get (Header resp) ''X-Ausername'' \<noteq> ''anonymous''"
  then show "snd (postCallback login Do req resp s) = s"
    by (simp add: postCallback_authenticated)
qed

text \<open>
  C5 run with the flag off at entry: a failing login and a failing replay that both
  switch the flag, a login that panics, and a response of user \<open>bob\<close>.
\<close>

theorem quiet_flag_restored_witness:
  "Quiet (globals (snd (postCallback loginFails replayFails ''GET /issue/1'' (respFrom None) demoSession)))
     = False
   \<and> Quiet (globals (snd (postCallback loginPanics replayOk ''GET /issue/1''
                              (respFrom (Some [''anonymous''])) (setQuiet True demoSession))))
     = True
   \<and> snd (postCallback loginFails replayFails ''GET /issue/1'' (respFrom (Some [''bob''])) demoSession)
     = demoSession"
  using quiet_flag_restored [of "respFrom None" loginFails replayFails "''GET /issue/1''" demoSession]
        quiet_flag_restored [of "respFrom (Some [''anonymous''])" loginPanics replayOk "''GET /issue/1''"
           "setQuiet True demoSession"]
        quiet_flag_restored [of "respFrom (Some [''bob''])" loginFails replayFails "''GET /issue/1''"
           demoSession]
  by (simp add: Header_Get_def respFrom_def demoSession_def demoGlobals_def)

subsection \<open>Traces\<close>

lemma trace_emit [simp]: "trace (emit ev w) = trace w @ [ev]"
  by (simp add: emit_def)

lemma files_emit [simp]: "files (emit ev w) = files w"
  by (simp add: emit_def)

lemma environ_emit [simp]: "environ (emit ev w) = environ w"
  by (simp add: emit_def)

lemma heap_emit [simp]: "heap (emit ev w) = heap w"
  by (simp add: emit_def)

lemma extends_refl [simp]: "extends P w w"
  by (simp add: extends_def)

lemma extends_trans: "extends P w w1 \<Longrightarrow> extends P w1 w2 \<Longrightarrow> extends P w w2"
  by (auto simp: extends_def)

lemma extends_mono: "extends P w w' \<Longrightarrow> (\<And>ev. P ev \<Longrightarrow> Q ev) \<Longrightarrow> extends Q w w'"
  by (auto simp: extends_def list_all_iff)

lemma extendsI: "trace w' = trace w @ evs \<Longrightarrow> list_all P evs \<Longrightarrow> extends P w w'"
  by (auto simp: extends_def)

lemma extends_events: "extends P w w' \<Longrightarrow> ev \<in> set (events_since w w') \<Longrightarrow> P ev"
  by (auto simp: extends_def events_since_def list_all_iff)

lemma extends_length: "extends P w w' \<Longrightarrow> length (trace w) \<le> length (trace w')"
  by (auto simp: extends_def)

lemma events_since_trans:
  "extends P w w1 \<Longrightarrow> extends Q w1 w2 \<Longrightarrow> events_since w w2 = events_since w w1 @ events_since w1 w2"
  by (auto simp: extends_def events_since_def)

lemma events_since_app [simp]: "trace w' = trace w @ evs \<Longrightarrow> events_since w w' = evs"
  by (simp add: events_since_def)

subsection \<open>The prompt\<close>

lemma confirm_trace:
  "trace (snd (confirm E msg w)) = trace w @ [EvConfirm msg (fst (userReply E msg w))]"
  by (simp add: confirm_def split: prod.splits)

lemma confirm_answer:
  "fst (confirm E msg w) \<longleftrightarrow> fst (userReply E msg w) = Yes \<or> fst (userReply E msg w) = Blank"
  by (simp add: confirm_def survey_AskOne_def split: prod.splits reply.splits)

lemma retryOrExit_cases:
  assumes "retryOrExit E err msg w = (st, w')"
  obtains r where "trace w' = trace w @ [EvLogError err, EvConfirm msg r]"
    and "st = Continue \<and> (r = Yes \<or> r = Blank) \<or> st = PanicExit \<lparr>Code = 1\<rparr> \<and> (r = No \<or> r = NoAnswer)"
proof -
  let ?c = "confirm E msg (log_Error err w)"
  let ?r = "fst (userReply E msg (log_Error err w))"
  have t: "trace (snd ?c) = trace w @ [EvLogError err, EvConfirm msg ?r]"
    by (simp add: confirm_trace log_Error_def)
  have w': "w' = snd ?c" and st: "st = (if fst ?c then Continue else PanicExit \<lparr>Code = 1\<rparr>)"
    using assms by (auto simp: retryOrExit_def split: prod.splits bool.splits)
  have "st = Continue \<and> (?r = Yes \<or> ?r = Blank) \<or> st = PanicExit \<lparr>Code = 1\<rparr> \<and> (?r = No \<or> ?r = NoAnswer)"
    unfolding st confirm_answer by (cases ?r) simp_all
  with t w' that show thesis by blast
qed

subsection \<open>editFile\<close>

lemma editFile_skip: "SkipEditing opts \<Longrightarrow> editFile E opts fileName w = ((False, None), w)"
  by (simp add: editFile_def)

lemma editFile_missing:
  "\<not> SkipEditing opts \<Longrightarrow> files w fileName = None
     \<Longrightarrow> editFile E opts fileName w = ((False, Some (NotExist fileName)), w)"
  by (simp add: editFile_def copyFile_def)

lemma exec_Run_trace: "trace (snd (exec_Run E argv w)) = trace w @ [EvExec argv]"
  by (simp add: exec_Run_def split: prod.splits)

lemma editFile_run_trace:
  "trace (snd (editFile_run E editor fileName orig w))
     = trace w @ [EvExec (shellquoteSplit E editor @ [fileName])]"
  using exec_Run_trace [of E "shellquoteSplit E editor @ [fileName]" w]
  by (auto simp: editFile_run_def Let_def split: prod.splits option.splits)

lemma editFile_present:
  assumes "\<not> SkipEditing opts" and "files w fileName = Some b"
  defines "w1 \<equiv> emit (EvCopyFile fileName (fileName @ ''.orig''))
                    (w\<lparr>files := (files w)(fileName @ ''.orig'' \<mapsto> b)\<rparr>)"
  shows "editFile E opts fileName w
           = (fst (editFile_run E (resolveEditor opts w) fileName (fileName @ ''.orig'') w1),
              os_Remove (fileName @ ''.orig'')
                (snd (editFile_run E (resolveEditor opts w) fileName (fileName @ ''.orig'') w1)))"
  using assms(1,2) unfolding w1_def
  by (simp add: editFile_def copyFile_def Let_def split: prod.splits)

lemma editFile_trace:
  assumes "\<not> SkipEditing opts" and "files w fileName = Some b"
  shows "trace (snd (editFile E opts fileName w))
           = trace w @ [EvCopyFile fileName (fileName @ ''.orig''),
                        EvExec (shellquoteSplit E (resolveEditor opts w) @ [fileName]),
                        EvRemove (fileName @ ''.orig'')]"
  by (simp add: editFile_present [OF assms] os_Remove_def editFile_run_trace)

lemma editFile_extends:
  "extends (editEvent fileName) w (snd (editFile E opts fileName w))"
proof (cases "SkipEditing opts")
  case True
  then show ?thesis by (simp add: editFile_skip)
next
  case False
  show ?thesis
  proof (cases "files w fileName")
    case None
    with False show ?thesis by (simp add: editFile_missing)
  next
    case (Some b)
    show ?thesis
      by (rule extendsI [OF editFile_trace [OF False Some]]) (simp add: editEvent_def)
  qed
qed
subsection \<open>The parts of the loop body\<close>

lemma editStage_skip: "SkipEditing opts \<Longrightarrow> editStage E opts tmpFile w = (None, w)"
  by (simp add: editStage_def)

lemma editStage_extends:
  assumes "editStage E opts tmpFile w = (so, w')"
  shows "extends (editEvent tmpFile) w w'"
proof (cases "SkipEditing opts")
  case True
  with assms show ?thesis by (simp add: editStage_skip)
next
  case False
  obtain changes err w1 where ef: "editFile E opts tmpFile w = ((changes, err), w1)"
    by (metis surj_pair)
  have e1: "extends (editEvent tmpFile) w w1"
    using editFile_extends [of tmpFile w E opts] ef by simp
  show ?thesis
  proof (cases err)
    case (Some e)
    obtain st where r: "retryOrExit E e ''Editor reported an error, edit again?'' w1 = (st, w')"
      using assms False ef Some by (auto simp: editStage_def split: prod.splits)
    from r obtain rp where "trace w' = trace w1 @ [EvLogError e, EvConfirm ''Editor reported an error, edit again?'' rp]"
      by (rule retryOrExit_cases)
    then have "extends (editEvent tmpFile) w1 w'"
      by (rule extendsI) (simp add: editEvent_def)
    with e1 show ?thesis by (rule extends_trans)
  next
    case None
    show ?thesis
    proof (cases changes)
      case True
      with assms False ef None have "w' = w1" by (simp add: editStage_def)
      with e1 show ?thesis by simp
    next
      case nc: False
      have "w' = snd (confirm E ''No changes detected, submit anyway?'' w1)"
        using assms False ef None nc by (auto simp: editStage_def split: prod.splits bool.splits)
      then have "trace w' = trace w1 @ [EvConfirm ''No changes detected, submit anyway?''
                                           (fst (userReply E ''No changes detected, submit anyway?'' w1))]"
        by (simp add: confirm_trace)
      then have "extends (editEvent tmpFile) w1 w'"
        by (rule extendsI) (simp add: editEvent_def)
      with e1 show ?thesis by (rule extends_trans)
    qed
  qed
qed

lemma editStage_result:
  assumes "editStage E opts tmpFile w = (Some st, w')"
  shows "st = Continue \<or>
         st = PanicExit \<lparr>Code = 1\<rparr> \<and> trace w' \<noteq> [] \<and>
           (\<exists>msg r. last (trace w') = EvConfirm msg r \<and> (r = No \<or> r = NoAnswer))"
proof -
  have ns: "\<not> SkipEditing opts" using assms by (auto simp: editStage_def)
  obtain changes err w1 where ef: "editFile E opts tmpFile w = ((changes, err), w1)"
    by (metis surj_pair)
  show ?thesis
  proof (cases err)
    case (Some e)
    have r: "retryOrExit E e ''Editor reported an error, edit again?'' w1 = (st, w')"
      using assms ns ef Some by (auto simp: editStage_def split: prod.splits)
    show ?thesis by (rule retryOrExit_cases [OF r]) auto
  next
    case None
    let ?msg = "''No changes detected, submit anyway?''"
    have nc: "\<not> changes" and c: "\<not> fst (confirm E ?msg w1)"
      and w': "w' = snd (confirm E ?msg w1)" and st: "st = PanicExit \<lparr>Code = 1\<rparr>"
      using assms ns ef None by (auto simp: editStage_def split: prod.splits bool.splits if_splits)
    have "trace w' = trace w1 @ [EvConfirm ?msg (fst (userReply E ?msg w1))]"
      by (simp add: w' confirm_trace)
    moreover have "fst (userReply E ?msg w1) = No \<or> fst (userReply E ?msg w1) = NoAnswer"
      using c unfolding confirm_answer by (cases "fst (userReply E ?msg w1)") simp_all
    ultimately show ?thesis using st by auto
  qed
qed

lemma retry_parse_extends:
  assumes "retryOrExit E err ''Invalid YAML syntax, edit again?'' w1 = (st, w')"
  shows "extends (parseEvent dup tmpFile) w1 w'"
  by (rule retryOrExit_cases [OF assms]) (auto intro!: extendsI simp: parseEvent_def)

lemma retry_result:
  assumes "retryOrExit E err msg w1 = (st, w')"
  shows "st = Continue \<or>
         st = PanicExit \<lparr>Code = 1\<rparr> \<and> trace w' \<noteq> [] \<and>
           (\<exists>msg r. last (trace w') = EvConfirm msg r \<and> (r = No \<or> r = NoAnswer))"
  by (rule retryOrExit_cases [OF assms]) auto

lemma retry_first:
  assumes "retryOrExit E err msg w1 = (st, w')"
  shows "\<exists>rest. trace w' = trace w1 @ rest"
  by (rule retryOrExit_cases [OF assms]) auto

lemma parseStage_facts:
  assumes "parseStage E tmpFile dup output w = (so, d', w')"
  shows "extends (parseEvent dup tmpFile) w w'"
    and "\<exists>rest. trace w' = trace w @ EvReadFile tmpFile # rest"
    and "so = Some st \<Longrightarrow> st = Continue \<or> (\<exists>e. st = ReturnErr e) \<or>
           st = PanicExit \<lparr>Code = 1\<rparr> \<and> trace w' \<noteq> [] \<and>
             (\<exists>msg r. last (trace w') = EvConfirm msg r \<and> (r = No \<or> r = NoAnswer))"
proof -
  let ?w1 = "emit (EvReadFile tmpFile) w"
  let ?P = "parseEvent dup tmpFile"
  have e1: "extends ?P w ?w1"
    by (rule extendsI [of _ _ "[EvReadFile tmpFile]"]) (simp_all add: parseEvent_def)
  have goal: "extends ?P w w' \<and> (\<exists>rest. trace w' = trace w @ EvReadFile tmpFile # rest)
      \<and> (so = Some st \<longrightarrow> st = Continue \<or> (\<exists>e. st = ReturnErr e) \<or>
           st = PanicExit \<lparr>Code = 1\<rparr> \<and> trace w' \<noteq> [] \<and>
             (\<exists>msg r. last (trace w') = EvConfirm msg r \<and> (r = No \<or> r = NoAnswer)))"
  proof (cases "os_Open w tmpFile")
    case (Inl e)
    with assms have "so = Some (ReturnErr e)" "w' = ?w1"
      by (simp_all add: parseStage_def ioutil_ReadFile_def)
    with e1 show ?thesis by auto
  next
    case (Inr data)
    show ?thesis
    proof (cases "copierFail E output dup")
      case (Some p)
      then have "copier_Copy E output dup = (Some (fst p), snd p)"
        by (simp add: copier_Copy_def split: prod.splits)
      with assms Inr have "so = Some (ReturnErr (fst p))" "w' = ?w1"
        by (simp_all add: parseStage_def ioutil_ReadFile_def)
      with e1 show ?thesis by auto
    next
      case None
      then have cp: "copier_Copy E output dup = (None, dup)"
        by (simp add: copier_Copy_def)
      have retry: ?thesis
        if r: "retryOrExit E err ''Invalid YAML syntax, edit again?'' w1 = (st', w')"
          and so: "so = Some st'" and w1: "extends ?P w w1"
          and f: "\<exists>rest. trace w1 = trace w @ EvReadFile tmpFile # rest"
        for err w1 st'
      proof -
        have "extends ?P w w'"
          using w1 retry_parse_extends [OF r] by (rule extends_trans)
        moreover have "\<exists>rest. trace w' = trace w @ EvReadFile tmpFile # rest"
          using f retry_first [OF r] by auto
        moreover note retry_result [OF r]
        ultimately show ?thesis using so by auto
      qed
      have f1: "\<exists>rest. trace ?w1 = trace w @ EvReadFile tmpFile # rest" by simp
      show ?thesis
      proof (cases "yamlParse E data")
        case (Inl err)
        obtain st' where "retryOrExit E err ''Invalid YAML syntax, edit again?'' ?w1 = (st', w')"
            and "so = Some st'"
          using assms Inr cp Inl
          by (auto simp: parseStage_def ioutil_ReadFile_def split: prod.splits)
        then show ?thesis using e1 f1 by (rule retry)
      next
        case raw: (Inr raw)
        show ?thesis
        proof (cases "yamlMarshal E (yamlFixup E raw)")
          case (Inl err)
          obtain st' where "retryOrExit E err ''Invalid YAML syntax, edit again?'' ?w1 = (st', w')"
              and "so = Some st'"
            using assms Inr cp raw Inl
            by (auto simp: parseStage_def ioutil_ReadFile_def split: prod.splits)
          then show ?thesis using e1 f1 by (rule retry)
        next
          case fixed: (Inr fixedYAML)
          obtain perr d2 h2 where pop: "yamlPopulate E fixedYAML dup (heap ?w1) = (perr, d2, h2)"
            by (metis surj_pair)
          let ?w2 = "emit (EvPopulate dup fixedYAML) (?w1\<lparr>heap := h2\<rparr>)"
          have e2: "extends ?P w ?w2"
            by (rule extendsI [of _ _ "[EvReadFile tmpFile, EvPopulate dup fixedYAML]"])
               (simp_all add: parseEvent_def)
          have f2: "\<exists>rest. trace ?w2 = trace w @ EvReadFile tmpFile # rest" by simp
          show ?thesis
          proof (cases perr)
            case None
            have "so = None" "d' = d2" "w' = ?w2"
              using assms Inr cp raw fixed pop None
              by (simp_all add: parseStage_def ioutil_ReadFile_def)
            then show ?thesis using e2 by auto
          next
            case (Some err)
            obtain st' where "retryOrExit E err ''Invalid YAML syntax, edit again?'' ?w2 = (st', w')"
                and "so = Some st'"
              using assms Inr cp raw fixed pop Some
              by (auto simp: parseStage_def ioutil_ReadFile_def split: prod.splits)
            then show ?thesis using e2 f2 by (rule retry)
          qed
        qed
      qed
    qed
  qed
  from goal show "extends (parseEvent dup tmpFile) w w'" by simp
  from goal show "\<exists>rest. trace w' = trace w @ EvReadFile tmpFile # rest" by simp
  from goal show "so = Some st \<Longrightarrow> st = Continue \<or> (\<exists>e. st = ReturnErr e) \<or>
           st = PanicExit \<lparr>Code = 1\<rparr> \<and> trace w' \<noteq> [] \<and>
             (\<exists>msg r. last (trace w') = EvConfirm msg r \<and> (r = No \<or> r = NoAnswer))" by simp
qed

lemma call_submit_trace:
  "trace (snd (call_submit submit d w)) = trace w @ [EvSubmit d (fst (call_submit submit d w))]"
  by (simp add: call_submit_def split: prod.splits)

lemma submitStage_cases:
  assumes "submitStage E submit d w = (st, w')"
  shows "st = Break \<and> trace w' = trace w @ [EvSubmit d None]
       \<or> (\<exists>e r. trace w' = trace w @ [EvSubmit d (Some e), EvLogError e,
                                        EvConfirm ''Jira reported an error, edit again?'' r]
              \<and> (st = Continue \<and> (r = Yes \<or> r = Blank)
                  \<or> st = PanicExit \<lparr>Code = 1\<rparr> \<and> (r = No \<or> r = NoAnswer)))"
proof (cases "fst (call_submit submit d w)")
  case None
  then have "st = Break" "w' = snd (call_submit submit d w)"
    using assms by (auto simp: submitStage_def split: prod.splits)
  then show ?thesis using call_submit_trace [of submit d w] None by simp
next
  case (Some e)
  then have r: "retryOrExit E e ''Jira reported an error, edit again?'' (snd (call_submit submit d w)) = (st, w')"
    using assms by (auto simp: submitStage_def split: prod.splits)
  show ?thesis
    by (rule retryOrExit_cases [OF r]) (use call_submit_trace [of submit d w] Some in auto)
qed

subsection \<open>One pass of the loop\<close>

lemma loopBody_cases:
  assumes "loopBody E opts tmpFile dup submit output w = (st, d', w')"
  obtains (edit) "editStage E opts tmpFile w = (Some st, w')" and "d' = output"
  | (parse) w1 where "editStage E opts tmpFile w = (None, w1)"
      and "parseStage E tmpFile dup output w1 = (Some st, d', w')"
  | (submit) w1 w2 where "editStage E opts tmpFile w = (None, w1)"
      and "parseStage E tmpFile dup output w1 = (None, d', w2)"
      and "submitStage E submit d' w2 = (st, w')"
  using assms
  by (auto simp: loopBody_def split: prod.splits option.splits)

lemma submitStage_extends:
  assumes "submitStage E submit d w = (st, w')"
  shows "extends submitEvent w w'"
proof -
  from submitStage_cases [OF assms]
  obtain res rest where t: "trace w' = trace w @ EvSubmit d res # rest"
    and r: "rest = [] \<or> (\<exists>e r. rest = [EvLogError e, EvConfirm ''Jira reported an error, edit again?'' r])"
    by auto
  show ?thesis
    by (rule extendsI [OF t]) (use r in \<open>auto simp: submitEvent_def\<close>)
qed

lemma loopBody_extends:
  assumes "loopBody E opts tmpFile dup submit output w = (st, d', w')"
  shows "extends (loopEvent E opts tmpFile dup) w w'"
proof -
  let ?P = "loopEvent E opts tmpFile dup"
  have ed: "extends ?P w w1" if "editStage E opts tmpFile w = (so, w1)" for so w1
  proof (cases "SkipEditing opts")
    case True
    with that show ?thesis by (simp add: editStage_skip)
  next
    case False
    show ?thesis
      by (rule extends_mono [OF editStage_extends [OF that]]) (simp add: loopEvent_def False)
  qed
  have pa: "extends ?P w1 w2" if "parseStage E tmpFile dup output w1 = (so, d, w2)" for so d w1 w2
    by (rule extends_mono [OF parseStage_facts(1) [OF that]]) (simp add: loopEvent_def)
  from assms show ?thesis
  proof (cases rule: loopBody_cases)
    case edit
    then show ?thesis by (simp add: ed)
  next
    case (parse w1)
    then show ?thesis using ed pa extends_trans by blast
  next
    case (submit w1 w2)
    have "extends submitEvent w2 w'"
      by (rule submitStage_extends [OF submit(3)])
    then have "extends ?P w2 w'"
      by (rule extends_mono) (simp add: loopEvent_def)
    with ed [OF submit(1)] pa [OF submit(2)] show ?thesis
      using extends_trans by blast
  qed
qed

lemma loopBody_panic:
  assumes "loopBody E opts tmpFile dup submit output w = (PanicExit x, d', w')"
  shows "x = \<lparr>Code = 1\<rparr> \<and> trace w' \<noteq> [] \<and>
           (\<exists>msg r. last (trace w') = EvConfirm msg r \<and> (r = No \<or> r = NoAnswer))"
  using assms
proof (cases rule: loopBody_cases)
  case edit
  then show ?thesis using editStage_result by fastforce
next
  case (parse w1)
  then show ?thesis using parseStage_facts(3) [OF parse(2), of "PanicExit x"] by auto
next
  case (submit w1 w2)
  then show ?thesis using submitStage_cases [OF submit(3)] by auto
qed

lemma loopBody_step_kind:
  assumes "loopBody E opts tmpFile dup submit output w = (st, d', w')"
  shows "st = Break \<longrightarrow> trace w' \<noteq> [] \<and> last (trace w') = EvSubmit d' None"
    and "EvSubmit d None \<in> set (events_since w w') \<longrightarrow> st = Break \<and> d' = d"
proof -
  have noed: "EvSubmit d None \<notin> set (events_since w w1)"
    if "editStage E opts tmpFile w = (so, w1)" for so w1
    using extends_events [OF editStage_extends [OF that], of "EvSubmit d None"]
    by (auto simp: editEvent_def)
  have nopa: "EvSubmit d None \<notin> set (events_since w1 w2)"
    if "parseStage E tmpFile dup output w1 = (so, d2, w2)" for so d2 w1 w2
    using extends_events [OF parseStage_facts(1) [OF that], of "EvSubmit d None"]
    by (auto simp: parseEvent_def)
  from assms have "(st = Break \<longrightarrow> trace w' \<noteq> [] \<and> last (trace w') = EvSubmit d' None)
      \<and> (EvSubmit d None \<in> set (events_since w w') \<longrightarrow> st = Break \<and> d' = d)"
  proof (cases rule: loopBody_cases)
    case edit
    then show ?thesis using editStage_result [OF edit(1)] noed [OF edit(1)] by auto
  next
    case (parse w1)
    have "events_since w w' = events_since w w1 @ events_since w1 w'"
      using editStage_extends [OF parse(1)] parseStage_facts(1) [OF parse(2)]
      by (rule events_since_trans)
    then show ?thesis
      using parseStage_facts(3) [OF parse(2), of st] noed [OF parse(1)] nopa [OF parse(2)]
      by auto
  next
    case (submit w1 w2)
    have e12: "extends (editEvent tmpFile) w w1" and e23: "extends (parseEvent dup tmpFile) w1 w2"
      using editStage_extends [OF submit(1)] parseStage_facts(1) [OF submit(2)] by auto
    from submitStage_cases [OF submit(3)]
    obtain evs where t: "trace w' = trace w2 @ evs"
      and k: "st = Break \<and> evs = [EvSubmit d' None] \<or>
              st \<noteq> Break \<and> (\<forall>dd. EvSubmit dd None \<notin> set evs)"
      by auto
    have e3: "extends (\<lambda>_. True) w2 w'"
      using t by (auto simp: extends_def list_all_iff)
    have "events_since w w2 = events_since w w1 @ events_since w1 w2"
      using e12 e23 by (rule events_since_trans)
    moreover have "extends (\<lambda>_. True) w w2"
      using extends_trans [OF extends_mono [OF e12] extends_mono [OF e23]] by simp
    then have "events_since w w' = events_since w w2 @ events_since w2 w'"
      using e3 by (rule events_since_trans)
    moreover have "events_since w2 w' = evs" using t by simp
    ultimately show ?thesis
      using k t noed [OF submit(1)] nopa [OF submit(2)] by auto
  qed
  then show "st = Break \<longrightarrow> trace w' \<noteq> [] \<and> last (trace w') = EvSubmit d' None"
    and "EvSubmit d None \<in> set (events_since w w') \<longrightarrow> st = Break \<and> d' = d" by simp_all
qed

lemma loopBody_skip_first:
  assumes "loopBody E opts tmpFile dup submit output w = (st, d', w')" and "SkipEditing opts"
  shows "\<exists>rest. trace w' = trace w @ EvReadFile tmpFile # rest"
  using assms(1)
proof (cases rule: loopBody_cases)
  case edit
  then show ?thesis using assms(2) by (simp add: editStage_skip)
next
  case (parse w1)
  then show ?thesis using assms(2) parseStage_facts(2) [OF parse(2)] by (simp add: editStage_skip)
next
  case (submit w1 w2)
  have "w1 = w" using submit(1) assms(2) by (simp add: editStage_skip)
  then obtain rest where "trace w2 = trace w @ EvReadFile tmpFile # rest"
    using parseStage_facts(2) [OF submit(2)] by auto
  then show ?thesis using submitStage_cases [OF submit(3)] by auto
qed

subsection \<open>The loop\<close>

lemma editLoop_for_Suc:
  assumes "loopBody E opts tmpFile dup submit doc w = (st, d1, w1)"
  shows "editLoop_for (Suc n) E opts tmpFile dup submit doc w =
           (case st of
              Continue \<Rightarrow> editLoop_for n E opts tmpFile dup submit d1 w1
            | Break \<Rightarrow> (Some (Returned None), d1, w1)
            | ReturnErr err \<Rightarrow> (Some (Returned (Some err)), d1, w1)
            | PanicExit x \<Rightarrow> (Some (Panicked x), d1, w1))"
  using assms by (simp split: step.splits)

declare editLoop_for.simps(2) [simp del]

lemma editLoop_for_extends:
  "editLoop_for n E opts tmpFile dup submit doc w = (res, d', w')
     \<Longrightarrow> extends (loopEvent E opts tmpFile dup) w w'"
proof (induction n arbitrary: doc w)
  case 0
  then show ?case by simp
next
  case (Suc n)
  obtain st d1 w1 where b: "loopBody E opts tmpFile dup submit doc w = (st, d1, w1)"
    by (metis surj_pair)
  note e = loopBody_extends [OF b]
  show ?case
  proof (cases st)
    case Continue
    then have "editLoop_for n E opts tmpFile dup submit d1 w1 = (res, d', w')"
      using Suc.prems by (simp add: editLoop_for_Suc [OF b])
    then show ?thesis using Suc.IH e extends_trans by blast
  qed (use Suc.prems e in \<open>simp_all add: editLoop_for_Suc [OF b]\<close>)
qed

lemma editLoop_for_panic:
  "editLoop_for n E opts tmpFile dup submit doc w = (Some (Panicked x), d', w')
     \<Longrightarrow> x = \<lparr>Code = 1\<rparr> \<and> trace w' \<noteq> [] \<and>
           (\<exists>msg r. last (trace w') = EvConfirm msg r \<and> (r = No \<or> r = NoAnswer))"
proof (induction n arbitrary: doc w)
  case 0
  then show ?case by simp
next
  case (Suc n)
  obtain st d1 w1 where b: "loopBody E opts tmpFile dup submit doc w = (st, d1, w1)"
    by (metis surj_pair)
  show ?case
  proof (cases st)
    case Continue
    then show ?thesis using Suc.prems Suc.IH by (simp add: editLoop_for_Suc [OF b])
  next
    case (PanicExit y)
    then have "y = x" "d' = d1" "w' = w1"
      using Suc.prems by (simp_all add: editLoop_for_Suc [OF b])
    then show ?thesis using loopBody_panic [of E opts tmpFile dup submit doc w x d' w'] b PanicExit
      by simp
  qed (use Suc.prems in \<open>simp_all add: editLoop_for_Suc [OF b]\<close>)
qed

lemma editLoop_for_success:
  "editLoop_for n E opts tmpFile dup submit doc w = (res, d', w')
     \<Longrightarrow> EvSubmit d None \<in> set (events_since w w')
     \<Longrightarrow> res = Some (Returned None) \<and> d' = d \<and> last (trace w') = EvSubmit d None"
proof (induction n arbitrary: doc w)
  case 0
  then show ?case by (simp add: events_since_def)
next
  case (Suc n)
  obtain st d1 w1 where b: "loopBody E opts tmpFile dup submit doc w = (st, d1, w1)"
    by (metis surj_pair)
  note k1 = loopBody_step_kind(1) [OF b] and k2 = loopBody_step_kind(2) [OF b, of d]
  show ?case
  proof (cases st)
    case Continue
    then have r: "editLoop_for n E opts tmpFile dup submit d1 w1 = (res, d', w')"
      using Suc.prems by (simp add: editLoop_for_Suc [OF b])
    have "events_since w w' = events_since w w1 @ events_since w1 w'"
      using loopBody_extends [OF b] editLoop_for_extends [OF r] by (rule events_since_trans)
    then have "EvSubmit d None \<in> set (events_since w1 w')"
      using Suc.prems(2) k2 Continue by auto
    then show ?thesis using Suc.IH [OF r] by simp
  next
    case Break
    then have "res = Some (Returned None)" "d' = d1" "w' = w1"
      using Suc.prems by (simp_all add: editLoop_for_Suc [OF b])
    then show ?thesis using k1 k2 Suc.prems(2) Break by simp
  next
    case (ReturnErr e)
    then have "w' = w1" using Suc.prems by (simp add: editLoop_for_Suc [OF b])
    then show ?thesis using k2 Suc.prems(2) ReturnErr by simp
  next
    case (PanicExit y)
    then have "w' = w1" using Suc.prems by (simp add: editLoop_for_Suc [OF b])
    then show ?thesis using k2 Suc.prems(2) PanicExit by simp
  qed
qed

lemma editLoop_for_skip_first:
  assumes "editLoop_for (Suc n) E opts tmpFile dup submit doc w = (res, d', w')"
      and "SkipEditing opts"
  shows "\<exists>rest. trace w' = trace w @ EvReadFile tmpFile # rest"
proof -
  obtain st d1 w1 where b: "loopBody E opts tmpFile dup submit doc w = (st, d1, w1)"
    by (metis surj_pair)
  obtain rest where f: "trace w1 = trace w @ EvReadFile tmpFile # rest"
    using loopBody_skip_first [OF b assms(2)] by auto
  show ?thesis
  proof (cases st)
    case Continue
    then have "editLoop_for n E opts tmpFile dup submit d1 w1 = (res, d', w')"
      using assms(1) by (simp add: editLoop_for_Suc [OF b])
    from editLoop_for_extends [OF this] f show ?thesis by (auto simp: extends_def)
  qed (use assms(1) f in \<open>auto simp: editLoop_for_Suc [OF b]\<close>)
qed

lemma editLoop_for_more_fuel:
  "editLoop_for n E opts tmpFile dup submit doc w = (Some r, d', w')
     \<Longrightarrow> editLoop_for (n + k) E opts tmpFile dup submit doc w = (Some r, d', w')"
proof (induction n arbitrary: doc w)
  case 0
  then show ?case by simp
next
  case (Suc n)
  obtain st d1 w1 where b: "loopBody E opts tmpFile dup submit doc w = (st, d1, w1)"
    by (metis surj_pair)
  show ?case
    using Suc.prems Suc.IH [of d1 w1]
    by (cases st) (simp_all add: editLoop_for_Suc [OF b])
qed

lemma call_tmpTemplate_trace:
  "trace (snd (call_tmpTemplate E name input w)) = trace w @ [EvRender name]"
  by (simp add: call_tmpTemplate_def split: prod.splits)

lemma EditLoop_cases:
  assumes "EditLoop n E opts input output submit w = (res, d', w')"
  obtains (render) e where "call_tmpTemplate E (Template opts) input w = (Inl e, w')"
      and "res = Some (Returned (Some e))" and "d' = output"
  | (copy) tmpFile e where "call_tmpTemplate E (Template opts) input w = (Inr tmpFile, w')"
      and "copierFail E (docZero E) output \<noteq> None"
      and "res = Some (Returned (Some e))" and "d' = output"
  | (loop) tmpFile w1 where "call_tmpTemplate E (Template opts) input w = (Inr tmpFile, w1)"
      and "copierFail E (docZero E) output = None"
      and "editLoop_for n E opts tmpFile output submit output w1 = (res, d', w')"
proof -
  obtain r w1 where t: "call_tmpTemplate E (Template opts) input w = (r, w1)"
    by (metis surj_pair)
  show thesis
  proof (cases r)
    case (Inl e)
    with assms t show ?thesis by (intro render [of e]) (simp_all add: EditLoop_def)
  next
    case (Inr tmpFile)
    show ?thesis
    proof (cases "copierFail E (docZero E) output")
      case None
      with assms t Inr show ?thesis
        by (intro loop [of tmpFile w1]) (simp_all add: EditLoop_def copier_Copy_def)
    next
      case (Some p)
      with assms t Inr show ?thesis
        by (intro copy [of tmpFile "fst p"]) (auto simp: EditLoop_def copier_Copy_def split: prod.splits)
    qed
  qed
qed

lemma EditLoop_loop:
  assumes "call_tmpTemplate E (Template opts) input w = (Inr tmpFile, w1)"
      and "copierFail E (docZero E) output = None"
  shows "EditLoop n E opts input output submit w
           = editLoop_for n E opts tmpFile output submit output w1"
  using assms by (simp add: EditLoop_def copier_Copy_def)

text \<open>
  What every run of \<open>EditLoop\<close> has called: the renderer, once and first, and then only
  what the passes of the loop call.
\<close>

lemma EditLoop_events:
  assumes "EditLoop n E opts input output submit w = (res, d', w')"
  shows "\<exists>rest. events_since w w' = EvRender (Template opts) # rest
           \<and> (rest = [] \<or> (\<exists>tmpFile w1. call_tmpTemplate E (Template opts) input w = (Inr tmpFile, w1)
                \<and> copierFail E (docZero E) output = None
                \<and> editLoop_for n E opts tmpFile output submit output w1 = (res, d', w')
                \<and> rest = events_since w1 w' \<and> extends (loopEvent E opts tmpFile output) w1 w'))"
  using assms
proof (cases rule: EditLoop_cases)
  case (render e)
  then have "events_since w w' = [EvRender (Template opts)]"
    using call_tmpTemplate_trace [of E "Template opts" input w] by simp
  then show ?thesis by simp
next
  case (copy tmpFile e)
  then have "events_since w w' = [EvRender (Template opts)]"
    using call_tmpTemplate_trace [of E "Template opts" input w] by simp
  then show ?thesis by simp
next
  case (loop tmpFile w1)
  have t: "trace w1 = trace w @ [EvRender (Template opts)]"
    using call_tmpTemplate_trace [of E "Template opts" input w] loop(1) by simp
  note e = editLoop_for_extends [OF loop(3)]
  then obtain evs where "trace w' = trace w1 @ evs" by (auto simp: extends_def)
  then have "events_since w w' = EvRender (Template opts) # events_since w1 w'"
    using t by (simp add: events_since_def)
  then show ?thesis using loop e by blast
qed

lemma EditLoop_event_kinds:
  assumes "EditLoop n E opts input output submit w = (res, d', w')"
      and "ev \<in> set (events_since w w')"
  shows "ev = EvRender (Template opts) \<or>
         (\<exists>tmpFile w1. call_tmpTemplate E (Template opts) input w = (Inr tmpFile, w1)
            \<and> loopEvent E opts tmpFile output ev)"
proof -
  from EditLoop_events [OF assms(1)] obtain rest
    where e: "events_since w w' = EvRender (Template opts) # rest"
      and r: "rest = [] \<or> (\<exists>tmpFile w1. call_tmpTemplate E (Template opts) input w = (Inr tmpFile, w1)
                \<and> rest = events_since w1 w' \<and> extends (loopEvent E opts tmpFile output) w1 w')"
    by blast
  from assms(2) e have "ev = EvRender (Template opts) \<or> ev \<in> set rest" by simp
  then show ?thesis
  proof
    assume "ev \<in> set rest"
    with r obtain tmpFile w1
      where "call_tmpTemplate E (Template opts) input w = (Inr tmpFile, w1)"
        and "ev \<in> set (events_since w1 w')" and "extends (loopEvent E opts tmpFile output) w1 w'"
      by auto
    then show ?thesis using extends_events by blast
  qed simp
qed

subsection \<open>The verdict of the DIFF step\<close>

text \<open>
  C4. With the backup and the edited file both present, the DIFF step reports a change
  whenever their sizes differ; for equal sizes it reports a change exactly when some byte
  differs; and it reports no change only when the sizes are equal and every 1024-byte
  chunk of the one equals the chunk of the other at the same offset. This verdict is
  what \<open>editFile\<close> returns: when the editor has run without error and left the world
  \<open>w\<close>, \<open>editFile\<close> returns a change exactly when the backup and the file of \<open>w\<close>
  differ, and no error.
\<close>

theorem diff_step_changed:
  assumes "files w orig = Some old" and "files w name = Some new"
  shows "(length old \<noteq> length new \<longrightarrow> diffFiles w orig name = (True, None))
       \<and> (length old = length new \<longrightarrow>
            diffFiles w orig name = ((\<exists>i<length old. old ! i \<noteq> new ! i), None))
       \<and> (fst (diffFiles w orig name) = False \<longrightarrow>
            length old = length new
            \<and> (\<forall>k. take 1024 (drop (1024 * k) old) = take 1024 (drop (1024 * k) new)))
       \<and> (\<not> SkipEditing opts \<and> orig = name @ ''.orig'' \<and> files w0 name = Some b
            \<and> cmdRun E (shellquoteSplit E (resolveEditor opts w0) @ [name])
                 (snd (copyFile name orig w0)) = (None, w) \<longrightarrow>
            fst (editFile E opts name w0) = (old \<noteq> new, None)
            \<and> fst (editFile E opts name w0) = diffFiles w orig name)"
proof -
  have d: "diffFiles w orig name = (old \<noteq> new, None)"
    using assms by (rule diffFiles_eq)
  have "length old = length new \<Longrightarrow> (old \<noteq> new) = (\<exists>i<length old. old ! i \<noteq> new ! i)"
    by (auto simp: list_eq_iff_nth_eq)
  then have abc: "(length old \<noteq> length new \<longrightarrow> diffFiles w orig name = (True, None))
       \<and> (length old = length new \<longrightarrow>
            diffFiles w orig name = ((\<exists>i<length old. old ! i \<noteq> new ! i), None))
       \<and> (fst (diffFiles w orig name) = False \<longrightarrow>
            length old = length new
            \<and> (\<forall>k. take 1024 (drop (1024 * k) old) = take 1024 (drop (1024 * k) new)))"
    unfolding d by auto
  have e: "fst (editFile E opts name w0) = (old \<noteq> new, None)"
    if ns: "\<not> SkipEditing opts" and o: "orig = name @ ''.orig''" and f: "files w0 name = Some b"
      and run: "cmdRun E (shellquoteSplit E (resolveEditor opts w0) @ [name])
                 (snd (copyFile name orig w0)) = (None, w)"
  proof -
    let ?w1 = "emit (EvCopyFile name (name @ ''.orig'')) (w0\<lparr>files := (files w0)(name @ ''.orig'' \<mapsto> b)\<rparr>)"
    have c: "snd (copyFile name orig w0) = ?w1"
      using f o by (simp add: copyFile_def)
    let ?w2 = "w\<lparr>trace := trace ?w1 @ [EvExec (shellquoteSplit E (resolveEditor opts w0) @ [name])]\<rparr>"
    have x: "exec_Run E (shellquoteSplit E (resolveEditor opts w0) @ [name]) ?w1 = (None, ?w2)"
      using run c by (simp add: exec_Run_def)
    have "diffFiles ?w2 (name @ ''.orig'') name = (old \<noteq> new, None)"
      using assms o by (intro diffFiles_eq) simp_all
    then have "fst (editFile_run E (resolveEditor opts w0) name (name @ ''.orig'') ?w1) = (old \<noteq> new, None)"
      using x by (simp add: editFile_run_def Let_def)
    then show ?thesis
      using editFile_present [OF ns f, of E] by simp
  qed
  have "\<not> SkipEditing opts \<and> orig = name @ ''.orig'' \<and> files w0 name = Some b
            \<and> cmdRun E (shellquoteSplit E (resolveEditor opts w0) @ [name])
                 (snd (copyFile name orig w0)) = (None, w) \<longrightarrow>
            fst (editFile E opts name w0) = (old \<noteq> new, None)
            \<and> fst (editFile E opts name w0) = diffFiles w orig name"
  proof
    assume h: "\<not> SkipEditing opts \<and> orig = name @ ''.orig'' \<and> files w0 name = Some b
            \<and> cmdRun E (shellquoteSplit E (resolveEditor opts w0) @ [name])
                 (snd (copyFile name orig w0)) = (None, w)"
    then have "fst (editFile E opts name w0) = (old \<noteq> new, None)"
      using e by blast
    then show "fst (editFile E opts name w0) = (old \<noteq> new, None)
            \<and> fst (editFile E opts name w0) = diffFiles w orig name"
      unfolding d by simp
  qed
  with abc show ?thesis by blast
qed

text \<open>
  C4 on three pairs of files: different sizes, the same size with the last byte of a
  second chunk changed, and identical contents; and on \<open>editFile\<close> with an editor that
  appends a byte to \<open>a\<close>, one that retypes the last byte of the two-chunk file \<open>b\<close>,
  and one that leaves \<open>a\<close> as it is.
\<close>

theorem diff_step_changed_witness:
  "diffFiles demoWorld ''a.orig'' ''a'' = (True, None)
   \<and> diffFiles demoWorld ''b.orig'' ''b'' = (True, None)
   \<and> diffFiles demoWorld ''c.orig'' ''c'' = (False, None)
   \<and> fst (editFile demoEnv demoOpts ''a'' demoWorld) = (True, None)
   \<and> fst (editFile (demoEnv\<lparr>cmdRun := retypeEditor\<rparr>) demoOpts ''b'' demoWorld) = (True, None)
   \<and> fst (editFile (demoEnv\<lparr>cmdRun := idleEditor\<rparr>) demoOpts ''a'' demoWorld) = (False, None)"
proof -
  have a: "files demoWorld ''a.orig'' = Some ''summary: x''" "files demoWorld ''a'' = Some ''summary: xy''"
    by (simp_all add: demoWorld_def demoFiles_def)
  have b: "files demoWorld ''b.orig'' = Some (replicate 1500 (CHR ''-'') @ ''x'')"
          "files demoWorld ''b'' = Some (replicate 1500 (CHR ''-'') @ ''y'')"
    by (simp_all add: demoWorld_def demoFiles_def)
  have c: "files demoWorld ''c.orig'' = Some ''summary: x''" "files demoWorld ''c'' = Some ''summary: x''"
    by (simp_all add: demoWorld_def demoFiles_def)
  have 1: "diffFiles demoWorld ''a.orig'' ''a'' = (True, None)"
    using diff_step_changed [OF a, THEN conjunct1] by simp
  have 2: "diffFiles demoWorld ''b.orig'' ''b'' = (True, None)"
  proof -
    have "\<exists>i<length (replicate 1500 (CHR ''-'') @ ''x'').
            (replicate 1500 (CHR ''-'') @ ''x'') ! i \<noteq> (replicate 1500 (CHR ''-'') @ ''y'') ! i"
      by (rule exI [of _ 1500]) (simp add: nth_append)
    then show ?thesis using diff_step_changed [OF b, THEN conjunct2, THEN conjunct1] by simp
  qed
  have 3: "diffFiles demoWorld ''c.orig'' ''c'' = (False, None)"
    using diff_step_changed [OF c, THEN conjunct2, THEN conjunct1] by simp
  have ns: "\<not> SkipEditing demoOpts" and ed: "resolveEditor demoOpts demoWorld = ''nano''"
    by (simp_all add: demoOpts_def resolveEditor_def demoWorld_def os_Getenv_def)
  let ?wa = "snd (copyFile ''a'' ''a.orig'' demoWorld)"
  let ?wb = "snd (copyFile ''b'' ''b.orig'' demoWorld)"
  have fa: "files ?wa = (files demoWorld)(''a.orig'' \<mapsto> ''summary: xy'')"
    and fb: "files ?wb = (files demoWorld)(''b.orig'' \<mapsto> replicate 1500 (CHR ''-'') @ ''y'')"
    using a b by (simp_all add: copyFile_def)
  have 4: "fst (editFile demoEnv demoOpts ''a'' demoWorld) = (True, None)"
  proof -
    let ?w = "?wa\<lparr>files := (files ?wa)(''a'' \<mapsto> ''summary: xy!'')\<rparr>"
    have r: "cmdRun demoEnv (shellquoteSplit demoEnv (resolveEditor demoOpts demoWorld) @ [''a'']) ?wa
               = (None, ?w)"
      using a by (simp add: demoEnv_def demoEditor_def fa)
    have o: "files ?w ''a.orig'' = Some ''summary: xy''" and n: "files ?w ''a'' = Some ''summary: xy!''"
      by (simp_all add: fa)
    show ?thesis
      using diff_step_changed [OF o n, where opts = demoOpts and ?w0.0 = demoWorld and E = demoEnv
              and b = "''summary: xy''"] ns a r
      by simp
  qed
  have 5: "fst (editFile (demoEnv\<lparr>cmdRun := retypeEditor\<rparr>) demoOpts ''b'' demoWorld) = (True, None)"
  proof -
    let ?E = "demoEnv\<lparr>cmdRun := retypeEditor\<rparr>"
    let ?w = "?wb\<lparr>files := (files ?wb)(''b'' \<mapsto> replicate 1500 (CHR ''-'') @ ''?'')\<rparr>"
    have r: "cmdRun ?E (shellquoteSplit ?E (resolveEditor demoOpts demoWorld) @ [''b'']) ?wb = (None, ?w)"
      using b by (simp add: demoEnv_def retypeEditor_def fb butlast_append)
    have o: "files ?w ''b.orig'' = Some (replicate 1500 (CHR ''-'') @ ''y'')"
      and n: "files ?w ''b'' = Some (replicate 1500 (CHR ''-'') @ ''?'')"
      by (simp_all add: fb)
    show ?thesis
      using diff_step_changed [OF o n, where opts = demoOpts and ?w0.0 = demoWorld and E = ?E
              and b = "replicate 1500 (CHR ''-'') @ ''y''"] ns b r
      by simp
  qed
  have 6: "fst (editFile (demoEnv\<lparr>cmdRun := idleEditor\<rparr>) demoOpts ''a'' demoWorld) = (False, None)"
  proof -
    let ?E = "demoEnv\<lparr>cmdRun := idleEditor\<rparr>"
    have r: "cmdRun ?E (shellquoteSplit ?E (resolveEditor demoOpts demoWorld) @ [''a'']) ?wa = (None, ?wa)"
      by (simp add: demoEnv_def idleEditor_def)
    have o: "files ?wa ''a.orig'' = Some ''summary: xy''" and n: "files ?wa ''a'' = Some ''summary: xy''"
      using a by (simp_all add: fa)
    show ?thesis
      using diff_step_changed [OF o n, where opts = demoOpts and ?w0.0 = demoWorld and E = ?E
              and b = "''summary: xy''"] ns a r
      by simp
  qed
  from 1 2 3 4 5 6 show ?thesis by simp
qed

subsection \<open>The editor command\<close>

text \<open>
  C8. The editor is the first non-empty string among the \<open>Editor\<close> option, the
  variables \<open>JIRA_EDITOR\<close> and \<open>EDITOR\<close>, and \<open>vim\<close>, in this order: a later
  candidate is taken only when every earlier one is empty. It is the command
  \<open>editFile\<close> runs on the file.
\<close>

theorem editor_resolution_order:
  "(Editor opts \<noteq> [] \<longrightarrow> resolveEditor opts w = Editor opts)
   \<and> (Editor opts = [] \<and> os_Getenv w ''JIRA_EDITOR'' \<noteq> [] \<longrightarrow>
        resolveEditor opts w = os_Getenv w ''JIRA_EDITOR'')
   \<and> (Editor opts = [] \<and> os_Getenv w ''JIRA_EDITOR'' = [] \<and> os_Getenv w ''EDITOR'' \<noteq> [] \<longrightarrow>
        resolveEditor opts w = os_Getenv w ''EDITOR'')
   \<and> (Editor opts = [] \<and> os_Getenv w ''JIRA_EDITOR'' = [] \<and> os_Getenv w ''EDITOR'' = [] \<longrightarrow>
        resolveEditor opts w = ''vim'')
   \<and> (\<not> SkipEditing opts \<and> files w fileName \<noteq> None \<longrightarrow>
        EvExec (shellquoteSplit E (resolveEditor opts w) @ [fileName])
          \<in> set (events_since w (snd (editFile E opts fileName w))))"
proof -
  have "EvExec (shellquoteSplit E (resolveEditor opts w) @ [fileName])
          \<in> set (events_since w (snd (editFile E opts fileName w)))"
    if "\<not> SkipEditing opts" and "files w fileName \<noteq> None"
    using that editFile_trace [of opts w fileName _ E] by auto
  then show ?thesis by (simp add: resolveEditor_def)
qed

text \<open>
  C8 with the option set, with both variables set, with \<open>EDITOR\<close> only, with nothing
  set, and the command run on the file \<open>a\<close>.
\<close>

theorem editor_resolution_order_witness:
  "resolveEditor (demoOpts\<lparr>Editor := ''emacs -nw''\<rparr>) demoWorld = ''emacs -nw''
   \<and> resolveEditor demoOpts (demoWorld\<lparr>environ := [''JIRA_EDITOR'' \<mapsto> ''vi'', ''EDITOR'' \<mapsto> ''nano'']\<rparr>) = ''vi''
   \<and> resolveEditor demoOpts demoWorld = ''nano''
   \<and> resolveEditor demoOpts (demoWorld\<lparr>environ := Map.empty\<rparr>) = ''vim''
   \<and> EvExec [''nano'', ''a''] \<in> set (events_since demoWorld (snd (editFile demoEnv demoOpts ''a'' demoWorld)))"
proof -
  note k1 = editor_resolution_order [where opts = "demoOpts\<lparr>Editor := ''emacs -nw''\<rparr>"
              and w = demoWorld and fileName = "''a''" and E = demoEnv]
  note k2 = editor_resolution_order [where opts = demoOpts and fileName = "''a''" and E = demoEnv
              and w = "demoWorld\<lparr>environ := [''JIRA_EDITOR'' \<mapsto> ''vi'', ''EDITOR'' \<mapsto> ''nano'']\<rparr>"]
  note k3 = editor_resolution_order [where opts = demoOpts and w = demoWorld and fileName = "''a''"
              and E = demoEnv]
  note k4 = editor_resolution_order [where opts = demoOpts and fileName = "''a''" and E = demoEnv
              and w = "demoWorld\<lparr>environ := Map.empty\<rparr>"]
  have 1: "resolveEditor (demoOpts\<lparr>Editor := ''emacs -nw''\<rparr>) demoWorld = ''emacs -nw''"
    using k1 by (simp add: demoOpts_def)
  have 2: "resolveEditor demoOpts (demoWorld\<lparr>environ := [''JIRA_EDITOR'' \<mapsto> ''vi'', ''EDITOR'' \<mapsto> ''nano'']\<rparr>) = ''vi''"
    using k2 by (simp add: demoOpts_def demoWorld_def os_Getenv_def)
  have 3: "resolveEditor demoOpts demoWorld = ''nano''"
    using k3 by (simp add: demoOpts_def demoWorld_def os_Getenv_def)
  have 4: "resolveEditor demoOpts (demoWorld\<lparr>environ := Map.empty\<rparr>) = ''vim''"
    using k4 by (simp add: demoOpts_def demoWorld_def os_Getenv_def)
  have "\<not> SkipEditing demoOpts \<and> files demoWorld ''a'' \<noteq> None"
    by (simp add: demoOpts_def demoWorld_def demoFiles_def)
  with k3 have "EvExec (shellquoteSplit demoEnv (resolveEditor demoOpts demoWorld) @ [''a''])
          \<in> set (events_since demoWorld (snd (editFile demoEnv demoOpts ''a'' demoWorld)))"
    by blast
  then have 5: "EvExec [''nano'', ''a''] \<in> set (events_since demoWorld (snd (editFile demoEnv demoOpts ''a'' demoWorld)))"
    unfolding 3 by (simp add: demoEnv_def)
  from 1 2 3 4 5 show ?thesis by simp
qed

subsection \<open>The backup copy\<close>

text \<open>
  C9. When editing is not skipped and the file exists, \<open>editFile\<close> first copies the
  file's bytes to the \<open>.orig\<close> path, runs the editor on a world that holds this copy,
  and removes the copy last: whatever the editor and the diff do, the calls are copy,
  run, remove in this order, the \<open>.orig\<close> path holds no file on return, and an editor
  error is returned after the removal.
\<close>

theorem backup_made_and_removed:
  assumes "\<not> SkipEditing opts" and "files w fileName = Some b"
  shows "\<exists>w1 argv.
           copyFile fileName (fileName @ ''.orig'') w = (None, w1)
         \<and> files w1 (fileName @ ''.orig'') = Some b \<and> files w1 fileName = Some b
         \<and> argv = shellquoteSplit E (resolveEditor opts w) @ [fileName]
         \<and> events_since w (snd (editFile E opts fileName w))
              = [EvCopyFile fileName (fileName @ ''.orig''), EvExec argv,
                 EvRemove (fileName @ ''.orig'')]
         \<and> files (snd (editFile E opts fileName w)) = (files (snd (cmdRun E argv w1)))(fileName @ ''.orig'' := None)
         \<and> files (snd (editFile E opts fileName w)) (fileName @ ''.orig'') = None
         \<and> (\<forall>err. fst (cmdRun E argv w1) = Some err \<longrightarrow>
               fst (editFile E opts fileName w) = (False, Some err))"
proof -
  let ?orig = "fileName @ ''.orig''"
  let ?w1 = "emit (EvCopyFile fileName ?orig) (w\<lparr>files := (files w)(?orig \<mapsto> b)\<rparr>)"
  let ?argv = "shellquoteSplit E (resolveEditor opts w) @ [fileName]"
  have c: "copyFile fileName ?orig w = (None, ?w1)"
    using assms(2) by (simp add: copyFile_def)
  have ne: "fileName \<noteq> ?orig" by simp
  have f1: "files ?w1 ?orig = Some b" "files ?w1 fileName = Some b"
    using assms(2) by simp_all
  note p = editFile_present [OF assms, of E]
  have fr: "files (snd (editFile_run E (resolveEditor opts w) fileName ?orig ?w1))
              = files (snd (cmdRun E ?argv ?w1))"
    by (simp add: editFile_run_def exec_Run_def Let_def split: prod.splits option.splits)
  have ff: "files (snd (editFile E opts fileName w)) = (files (snd (cmdRun E ?argv ?w1)))(?orig := None)"
    by (simp add: p os_Remove_def fr)
  have er: "fst (editFile E opts fileName w) = (False, Some err)"
    if "fst (cmdRun E ?argv ?w1) = Some err" for err
    using that by (auto simp: p editFile_run_def exec_Run_def Let_def split: prod.splits)
  have ev: "events_since w (snd (editFile E opts fileName w))
              = [EvCopyFile fileName ?orig, EvExec ?argv, EvRemove ?orig]"
    using editFile_trace [OF assms, of E] by simp
  show ?thesis
    using c f1 ff er ev by (intro exI [of _ ?w1] exI [of _ ?argv]) simp
qed

text \<open>
  C9 on the file \<open>a\<close> with the editor \<open>nano\<close> of the environment: the three calls,
  and no \<open>a.orig\<close> afterwards although one existed before.
\<close>

theorem backup_made_and_removed_witness:
  "events_since demoWorld (snd (editFile demoEnv demoOpts ''a'' demoWorld))
     = [EvCopyFile ''a'' ''a.orig'', EvExec [''nano'', ''a''], EvRemove ''a.orig'']
   \<and> files (snd (editFile demoEnv demoOpts ''a'' demoWorld)) ''a.orig'' = None
   \<and> files demoWorld ''a.orig'' = Some ''summary: x''"
proof -
  have s: "\<not> SkipEditing demoOpts" by (simp add: demoOpts_def)
  have f: "files demoWorld ''a'' = Some ''summary: xy''" by (simp add: demoWorld_def demoFiles_def)
  have r: "resolveEditor demoOpts demoWorld = ''nano''"
    by (simp add: resolveEditor_def demoOpts_def demoWorld_def os_Getenv_def)
  show ?thesis
    using backup_made_and_removed [OF s f, of demoEnv] r
    by (auto simp: demoEnv_def demoWorld_def demoFiles_def)
qed

subsection \<open>Skipping the editor\<close>

text \<open>
  C10. With the skip-editing option set, \<open>editFile\<close> returns no change and no error and
  leaves the world as it is; a run of \<open>EditLoop\<close> starts no editor, makes no backup, and
  shows neither the prompt about an editor error nor the one about missing changes; and
  once the template is rendered and the snapshot taken, the first thing a run with at
  least one pass does is to read the rendered file.
\<close>

theorem skip_editing_goes_to_parse:
  assumes "SkipEditing opts"
  shows "editFile E opts fileName w = ((False, None), w)
       \<and> (\<forall>ev \<in> set (events_since w (snd (snd (EditLoop n E opts input output submit w)))).
             (\<forall>argv. ev \<noteq> EvExec argv) \<and> (\<forall>src dst. ev \<noteq> EvCopyFile src dst)
             \<and> (\<forall>r. ev \<noteq> EvConfirm ''Editor reported an error, edit again?'' r)
             \<and> (\<forall>r. ev \<noteq> EvConfirm ''No changes detected, submit anyway?'' r))
       \<and> (\<forall>tmpFile w1. call_tmpTemplate E (Template opts) input w = (Inr tmpFile, w1)
               \<and> copierFail E (docZero E) output = None \<longrightarrow>
             take 2 (events_since w (snd (snd (EditLoop (Suc n) E opts input output submit w))))
               = [EvRender (Template opts), EvReadFile tmpFile])"
proof -
  have one: "editFile E opts fileName w = ((False, None), w)"
    using assms by (rule editFile_skip)
  have two: "(\<forall>argv. ev \<noteq> EvExec argv) \<and> (\<forall>src dst. ev \<noteq> EvCopyFile src dst)
             \<and> (\<forall>r. ev \<noteq> EvConfirm ''Editor reported an error, edit again?'' r)
             \<and> (\<forall>r. ev \<noteq> EvConfirm ''No changes detected, submit anyway?'' r)"
    if m: "ev \<in> set (events_since w (snd (snd (EditLoop n E opts input output submit w))))" for ev
  proof -
    obtain res d' w' where run: "EditLoop n E opts input output submit w = (res, d', w')"
      by (metis surj_pair)
    have "ev = EvRender (Template opts) \<or> (\<exists>tmpFile. parseEvent output tmpFile ev \<or> submitEvent ev)"
      using EditLoop_event_kinds [OF run, of ev] m run assms by (auto simp: loopEvent_def)
    then show ?thesis
      by (auto simp: parseEvent_def submitEvent_def)
  qed
  have three: "take 2 (events_since w (snd (snd (EditLoop (Suc n) E opts input output submit w))))
               = [EvRender (Template opts), EvReadFile tmpFile]"
    if a: "call_tmpTemplate E (Template opts) input w = (Inr tmpFile, w1)
               \<and> copierFail E (docZero E) output = None" for tmpFile w1
  proof -
    obtain res d' w' where l: "editLoop_for (Suc n) E opts tmpFile output submit output w1 = (res, d', w')"
      by (metis surj_pair)
    have run: "EditLoop (Suc n) E opts input output submit w = (res, d', w')"
      using a l by (simp add: EditLoop_loop)
    have "trace w1 = trace w @ [EvRender (Template opts)]"
      using call_tmpTemplate_trace [of E "Template opts" input w] a by simp
    moreover obtain rest where "trace w' = trace w1 @ EvReadFile tmpFile # rest"
      using editLoop_for_skip_first [OF l assms] by auto
    ultimately show ?thesis
      by (simp add: run events_since_def)
  qed
  show ?thesis
    using one two three by blast
qed

subsection \<open>Running the worked instances\<close>

lemmas demo_defs = demoEnv_def demoRender_def demoEditor_def demoUser_def demoPopulate_def
  demoSubmit_def demoWorld_def demoOpts_def idleEditor_def plainPopulate_def skipOpts_def

lemmas run_defs = EditLoop_def call_tmpTemplate_def copier_Copy_def loopBody_def editStage_def
  parseStage_def submitStage_def retryOrExit_def confirm_def survey_AskOne_def log_Error_def
  call_submit_def ioutil_ReadFile_def os_Open_def editFile_def copyFile_def editFile_run_def
  exec_Run_def os_Remove_def emit_def diffFiles_def resolveEditor_def os_Getenv_def diffLoop_eq
  Let_def editLoop_for.simps(2) events_since_def

text \<open>
  C10 run with editing skipped on a template the service accepts: \<open>editFile\<close> changes
  nothing, and the run renders, reads the file, populates and submits.
\<close>

theorem skip_editing_goes_to_parse_witness:
  "editFile demoEnv skipOpts ''a'' demoWorld = ((False, None), demoWorld)
   \<and> take 2 (events_since demoWorld
        (snd (snd (EditLoop (Suc 0) demoEnv skipOpts ''summary: x!!!'' [] demoSubmit demoWorld))))
      = [EvRender ''edit'', EvReadFile ''/tmp/t.yml'']
   \<and> fst (EditLoop (Suc 0) demoEnv skipOpts ''summary: x!!!'' [] demoSubmit demoWorld)
      = Some (Returned None)"
proof -
  have s: "SkipEditing skipOpts" by (simp add: skipOpts_def)
  have t: "Template skipOpts = ''edit''" by (simp add: skipOpts_def demoOpts_def)
  have r: "call_tmpTemplate demoEnv ''edit'' ''summary: x!!!'' demoWorld
             = (Inr ''/tmp/t.yml'',
                demoWorld\<lparr>files := (files demoWorld)(''/tmp/t.yml'' \<mapsto> ''summary: x!!!''),
                          trace := trace demoWorld @ [EvRender ''edit'']\<rparr>)"
    by (simp add: call_tmpTemplate_def demoEnv_def demoRender_def)
  have c: "copierFail demoEnv (docZero demoEnv) [] = None" by (simp add: demoEnv_def)
  have res: "fst (EditLoop (Suc 0) demoEnv skipOpts ''summary: x!!!'' [] demoSubmit demoWorld)
      = Some (Returned None)"
    by (simp add: run_defs demo_defs)
  note k = skip_editing_goes_to_parse
             [OF s, where E = demoEnv and fileName = "''a''" and w = demoWorld and n = 0
                and input = "''summary: x!!!''" and ?output = "[]" and submit = demoSubmit]
  from k have one: "editFile demoEnv skipOpts ''a'' demoWorld = ((False, None), demoWorld)" by simp
  from k r c t have two: "take 2 (events_since demoWorld
        (snd (snd (EditLoop (Suc 0) demoEnv skipOpts ''summary: x!!!'' [] demoSubmit demoWorld))))
      = [EvRender ''edit'', EvReadFile ''/tmp/t.yml'']"
    by simp
  from one two res show ?thesis by simp
qed

subsection \<open>Restoring the Document\<close>



subsection \<open>Prompts and the exit signal\<close>

lemma last_events_since:
  "trace w' = trace w @ evs \<Longrightarrow> evs \<noteq> [] \<Longrightarrow> last (events_since w w') = last (trace w')"
  by simp

text \<open>
  C7, as the code has it. A prompt answers yes when the user types yes or presses return
  on an empty line, and no when the user types no or the prompt ends without an answer.
  \<open>EditLoop\<close> panics only with \<open>Exit{Code: 1}\<close> and only right after a prompt that was
  answered no or not answered. When the file is unedited and the prompt about missing
  changes is answered no or not answered in the first pass, the run panics with
  \<open>Exit{Code: 1}\<close> and the submit callback has not been called.
\<close>

theorem abort_only_after_declined_prompt:
  "(fst (confirm E msg w) \<longleftrightarrow> fst (userReply E msg w) = Yes \<or> fst (userReply E msg w) = Blank)
   \<and> (EditLoop n E opts input output submit w = (Some (Panicked x), d', w') \<longrightarrow>
        x = \<lparr>Code = 1\<rparr> \<and>
        (\<exists>msg r. last (events_since w w') = EvConfirm msg r \<and> (r = No \<or> r = NoAnswer)))
   \<and> (call_tmpTemplate E (Template opts) input w = (Inr tmpFile, w1)
        \<and> copierFail E (docZero E) output = None \<and> \<not> SkipEditing opts
        \<and> editFile E opts tmpFile w1 = ((False, None), w2)
        \<and> (fst (userReply E ''No changes detected, submit anyway?'' w2) = No
            \<or> fst (userReply E ''No changes detected, submit anyway?'' w2) = NoAnswer) \<longrightarrow>
        fst (EditLoop (Suc k) E opts input output submit w) = Some (Panicked \<lparr>Code = 1\<rparr>)
        \<and> (\<forall>d r. EvSubmit d r \<notin> set (events_since w (snd (snd (EditLoop (Suc k) E opts input output submit w))))))"
proof -
  have two: "x = \<lparr>Code = 1\<rparr> \<and>
        (\<exists>msg r. last (events_since w w') = EvConfirm msg r \<and> (r = No \<or> r = NoAnswer))"
    if run: "EditLoop n E opts input output submit w = (Some (Panicked x), d', w')"
  proof -
    from run obtain tmpFile w1
      where t: "call_tmpTemplate E (Template opts) input w = (Inr tmpFile, w1)"
        and l: "editLoop_for n E opts tmpFile output submit output w1 = (Some (Panicked x), d', w')"
      by (cases rule: EditLoop_cases) simp_all
    have "trace w1 = trace w @ [EvRender (Template opts)]"
      using call_tmpTemplate_trace [of E "Template opts" input w] t by simp
    moreover obtain evs where "trace w' = trace w1 @ evs"
      using editLoop_for_extends [OF l] by (auto simp: extends_def)
    ultimately have "trace w' = trace w @ (EvRender (Template opts) # evs)" by simp
    then have "last (events_since w w') = last (trace w')"
      by (rule last_events_since) simp
    then show ?thesis using editLoop_for_panic [OF l] by simp
  qed
  have three: "fst (EditLoop (Suc k) E opts input output submit w) = Some (Panicked \<lparr>Code = 1\<rparr>)
        \<and> (\<forall>d r. EvSubmit d r \<notin> set (events_since w (snd (snd (EditLoop (Suc k) E opts input output submit w)))))"
    if t: "call_tmpTemplate E (Template opts) input w = (Inr tmpFile, w1)"
      and c: "copierFail E (docZero E) output = None" and ns: "\<not> SkipEditing opts"
      and ef: "editFile E opts tmpFile w1 = ((False, None), w2)"
      and no: "fst (userReply E ''No changes detected, submit anyway?'' w2) = No
            \<or> fst (userReply E ''No changes detected, submit anyway?'' w2) = NoAnswer"
  proof -
    let ?msg = "''No changes detected, submit anyway?''"
    let ?w3 = "snd (confirm E ?msg w2)"
    have "\<not> fst (confirm E ?msg w2)"
      unfolding confirm_answer using no by auto
    then have es: "editStage E opts tmpFile w1 = (Some (PanicExit \<lparr>Code = 1\<rparr>), ?w3)"
      using ns ef by (auto simp: editStage_def split: prod.splits bool.splits)
    then have b: "loopBody E opts tmpFile output submit output w1 = (PanicExit \<lparr>Code = 1\<rparr>, output, ?w3)"
      by (simp add: loopBody_def)
    have run: "EditLoop (Suc k) E opts input output submit w = (Some (Panicked \<lparr>Code = 1\<rparr>), output, ?w3)"
      by (simp add: EditLoop_loop [OF t c] editLoop_for_Suc [OF b])
    have t1: "trace w1 = trace w @ [EvRender (Template opts)]"
      using call_tmpTemplate_trace [of E "Template opts" input w] t by simp
    from editStage_extends [OF es] obtain evs
      where e: "trace ?w3 = trace w1 @ evs" and p: "list_all (editEvent tmpFile) evs"
      by (auto simp: extends_def)
    have "events_since w ?w3 = EvRender (Template opts) # evs"
      using t1 e by (simp add: events_since_def)
    moreover have "EvSubmit d r \<notin> set evs" for d r
      using p by (auto simp: list_all_iff editEvent_def)
    ultimately show ?thesis by (simp add: run)
  qed
  show ?thesis
    using confirm_answer [of E msg w] two three by blast
qed

text \<open>
  C7 run with an editor that leaves the file as it is and a user who types no: the run
  panics with \<open>Exit{Code: 1}\<close> after the prompt, and submit is not among the calls.
\<close>

theorem abort_only_after_declined_prompt_witness:
  "fst (EditLoop (Suc 0) (demoEnv\<lparr>cmdRun := idleEditor\<rparr>) demoOpts ''summary: x'' [] demoSubmit
          (demoWorld\<lparr>ext := [No]\<rparr>)) = Some (Panicked \<lparr>Code = 1\<rparr>)
   \<and> EvSubmit [''summary: x''] None \<notin> set (events_since (demoWorld\<lparr>ext := [No]\<rparr>)
        (snd (snd (EditLoop (Suc 0) (demoEnv\<lparr>cmdRun := idleEditor\<rparr>) demoOpts ''summary: x'' []
                     demoSubmit (demoWorld\<lparr>ext := [No]\<rparr>)))))
   \<and> fst (confirm demoEnv ''Editor reported an error, edit again?'' demoWorld)"
proof -
  let ?E = "demoEnv\<lparr>cmdRun := idleEditor\<rparr>"
  let ?w = "demoWorld\<lparr>ext := [No]\<rparr>"
  let ?w1 = "?w\<lparr>files := (files ?w)(''/tmp/t.yml'' \<mapsto> ''summary: x''),
                 trace := trace ?w @ [EvRender ''edit'']\<rparr>"
  have t: "call_tmpTemplate ?E (Template demoOpts) ''summary: x'' ?w = (Inr ''/tmp/t.yml'', ?w1)"
    by (simp add: call_tmpTemplate_def demoEnv_def demoRender_def demoOpts_def)
  have c: "copierFail ?E (docZero ?E) [] = None" by (simp add: demoEnv_def)
  have ns: "\<not> SkipEditing demoOpts" by (simp add: demoOpts_def)
  obtain w2 where ef: "editFile ?E demoOpts ''/tmp/t.yml'' ?w1 = ((False, None), w2)"
    and x: "ext w2 = [No]"
    by (simp add: run_defs demo_defs)
  have no: "fst (userReply ?E ''No changes detected, submit anyway?'' w2) = No"
    using x by (simp add: demoEnv_def demoUser_def)
  have b: "fst (userReply demoEnv ''Editor reported an error, edit again?'' demoWorld) = Blank"
    by (simp add: demoEnv_def demoUser_def demoWorld_def)
  note k = abort_only_after_declined_prompt
             [where E = ?E and opts = demoOpts and input = "''summary: x''" and w = ?w
                and tmpFile = "''/tmp/t.yml''" and ?w1.0 = ?w1 and ?output = "[]" and ?w2.0 = w2
                and k = 0 and submit = demoSubmit]
  have "fst (EditLoop (Suc 0) ?E demoOpts ''summary: x'' [] demoSubmit ?w) = Some (Panicked \<lparr>Code = 1\<rparr>)
        \<and> (\<forall>d r. EvSubmit d r \<notin> set (events_since ?w
              (snd (snd (EditLoop (Suc 0) ?E demoOpts ''summary: x'' [] demoSubmit ?w)))))"
    using k t c ns ef no by blast
  moreover have "fst (confirm demoEnv ''Editor reported an error, edit again?'' demoWorld)"
    using abort_only_after_declined_prompt
            [where E = demoEnv and msg = "''Editor reported an error, edit again?''" and w = demoWorld]
          b
    by blast
  ultimately show ?thesis by blast
qed

text \<open>
  C7 as the specification states it does not hold where the prompt ends without an answer: nobody typed no, yet the
  run panics with \<open>Exit{Code: 1}\<close>, the unanswered prompt being its last call.
\<close>

theorem abort_without_explicit_no:
  "fst (EditLoop (Suc 0) (demoEnv\<lparr>cmdRun := idleEditor\<rparr>) demoOpts ''summary: x'' [] demoSubmit
          (demoWorld\<lparr>ext := [NoAnswer]\<rparr>)) = Some (Panicked \<lparr>Code = 1\<rparr>)
   \<and> events_since (demoWorld\<lparr>ext := [NoAnswer]\<rparr>)
        (snd (snd (EditLoop (Suc 0) (demoEnv\<lparr>cmdRun := idleEditor\<rparr>) demoOpts ''summary: x'' []
                     demoSubmit (demoWorld\<lparr>ext := [NoAnswer]\<rparr>))))
      = [EvRender ''edit'', EvCopyFile ''/tmp/t.yml'' ''/tmp/t.yml.orig'',
         EvExec [''nano'', ''/tmp/t.yml''], EvRemove ''/tmp/t.yml.orig'',
         EvConfirm ''No changes detected, submit anyway?'' NoAnswer]"
  by (simp add: run_defs demo_defs)

subsection \<open>Retrying after a failed submit\<close>

lemma loopBody_submit_event:
  assumes "loopBody E opts tmpFile dup submit doc w = (st, d1, w1)"
      and "EvSubmit d res \<in> set (events_since w w1)"
  shows "d = d1 \<and> (\<exists>pre post. events_since w w1 = pre @ EvSubmit d1 res # post
           \<and> (res = None \<and> post = [] \<and> st = Break
               \<or> (\<exists>e r. res = Some e
                    \<and> post = [EvLogError e, EvConfirm ''Jira reported an error, edit again?'' r]
                    \<and> (st = Continue \<and> (r = Yes \<or> r = Blank)
                        \<or> st = PanicExit \<lparr>Code = 1\<rparr> \<and> (r = No \<or> r = NoAnswer)))))"
proof -
  have noed: "EvSubmit d res \<notin> set (events_since w wa)"
    if "editStage E opts tmpFile w = (so, wa)" for so wa
    using extends_events [OF editStage_extends [OF that], of "EvSubmit d res"]
    by (auto simp: editEvent_def)
  have nopa: "EvSubmit d res \<notin> set (events_since wa wb)"
    if "parseStage E tmpFile dup doc wa = (so, d2, wb)" for so d2 wa wb
    using extends_events [OF parseStage_facts(1) [OF that], of "EvSubmit d res"]
    by (auto simp: parseEvent_def)
  from assms(1) show ?thesis
  proof (cases rule: loopBody_cases)
    case edit
    then show ?thesis using noed assms(2) by blast
  next
    case (parse wa)
    have "events_since w w1 = events_since w wa @ events_since wa w1"
      using editStage_extends [OF parse(1)] parseStage_facts(1) [OF parse(2)]
      by (rule events_since_trans)
    then show ?thesis using noed [OF parse(1)] nopa [OF parse(2)] assms(2) by simp
  next
    case (submit wa wb)
    have e12: "extends (editEvent tmpFile) w wa" and e23: "extends (parseEvent dup tmpFile) wa wb"
      using editStage_extends [OF submit(1)] parseStage_facts(1) [OF submit(2)] by auto
    from submitStage_cases [OF submit(3)]
    obtain res' post where t: "trace w1 = trace wb @ EvSubmit d1 res' # post"
      and k: "res' = None \<and> post = [] \<and> st = Break
               \<or> (\<exists>e r. res' = Some e
                    \<and> post = [EvLogError e, EvConfirm ''Jira reported an error, edit again?'' r]
                    \<and> (st = Continue \<and> (r = Yes \<or> r = Blank)
                        \<or> st = PanicExit \<lparr>Code = 1\<rparr> \<and> (r = No \<or> r = NoAnswer)))"
      by auto
    have e3: "extends (\<lambda>_. True) wb w1"
      using t by (auto simp: extends_def list_all_iff)
    have a: "events_since w wb = events_since w wa @ events_since wa wb"
      using e12 e23 by (rule events_since_trans)
    have "extends (\<lambda>_. True) w wb"
      using extends_trans [OF extends_mono [OF e12] extends_mono [OF e23]] by simp
    then have b: "events_since w w1 = events_since w wb @ events_since wb w1"
      using e3 by (rule events_since_trans)
    have c: "events_since wb w1 = EvSubmit d1 res' # post" using t by simp
    have "EvSubmit d res \<in> set (EvSubmit d1 res' # post)"
      using assms(2) a b c noed [OF submit(1)] nopa [OF submit(2)] by simp
    with k have dr: "d = d1" "res = res'" by auto
    have "events_since w w1 = events_since w wb @ EvSubmit d1 res # post"
      using b c dr by simp
    then show ?thesis
      using k dr by (intro conjI exI [of _ "events_since w wb"] exI [of _ post]) auto
  qed
qed

lemma EditLoop_more_fuel:
  "EditLoop n E opts input output submit w = (Some r, d', w')
     \<Longrightarrow> EditLoop (n + k) E opts input output submit w = (Some r, d', w')"
  by (auto simp: EditLoop_def split: prod.splits sum.splits option.splits
        intro: editLoop_for_more_fuel)

text \<open>
  C6. If submit returns an error in a pass, the pass ends by logging the error and
  asking whether to edit again, and on yes (typed, or the default on an empty line) the
  loop makes its next pass with the same temporary file and snapshot. In every run the
  template is rendered once, before anything else; every editor run and every read is
  of the file that render returned; a submit that returns nil is the last call of the
  run, which returns nil with the Document holding what that submit was given; and a
  run that has returned returns the same with any larger bound on the passes.
\<close>

theorem failed_submit_retry_then_success:
  "(loopBody E opts tmpFile dup submit doc w = (st, d1, w1)
      \<and> EvSubmit d (Some e) \<in> set (events_since w w1) \<longrightarrow>
      d = d1 \<and>
      (\<exists>pre r. events_since w w1
           = pre @ [EvSubmit d1 (Some e), EvLogError e,
                    EvConfirm ''Jira reported an error, edit again?'' r]
         \<and> (r = Yes \<or> r = Blank \<longrightarrow>
              editLoop_for (Suc n) E opts tmpFile dup submit doc w
                = editLoop_for n E opts tmpFile dup submit d1 w1)))
   \<and> (EditLoop n E opts input output submit w0 = (res, d', w') \<longrightarrow>
      (\<exists>rest. events_since w0 w' = EvRender (Template opts) # rest
         \<and> (\<forall>name. EvRender name \<notin> set rest)
         \<and> (\<forall>file wr. call_tmpTemplate E (Template opts) input w0 = (Inr file, wr) \<longrightarrow>
               (\<forall>argv. EvExec argv \<in> set rest \<longrightarrow> argv \<noteq> [] \<and> last argv = file)
               \<and> (\<forall>p. EvReadFile p \<in> set rest \<longrightarrow> p = file))
         \<and> (\<forall>a. EvSubmit a None \<in> set rest \<longrightarrow>
               res = Some (Returned None) \<and> d' = a \<and> last rest = EvSubmit a None)
         \<and> (\<forall>r. res = Some r \<longrightarrow>
               EditLoop (n + k) E opts input output submit w0 = (res, d', w'))))"
proof -
  have one: "d = d1 \<and>
      (\<exists>pre r. events_since w w1
           = pre @ [EvSubmit d1 (Some e), EvLogError e,
                    EvConfirm ''Jira reported an error, edit again?'' r]
         \<and> (r = Yes \<or> r = Blank \<longrightarrow>
              editLoop_for (Suc n) E opts tmpFile dup submit doc w
                = editLoop_for n E opts tmpFile dup submit d1 w1))"
    if b: "loopBody E opts tmpFile dup submit doc w = (st, d1, w1)"
      and m: "EvSubmit d (Some e) \<in> set (events_since w w1)"
  proof -
    from loopBody_submit_event [OF b m]
    obtain pre r where d: "d = d1"
      and ev: "events_since w w1
           = pre @ [EvSubmit d1 (Some e), EvLogError e,
                    EvConfirm ''Jira reported an error, edit again?'' r]"
      and st: "st = Continue \<and> (r = Yes \<or> r = Blank)
                \<or> st = PanicExit \<lparr>Code = 1\<rparr> \<and> (r = No \<or> r = NoAnswer)"
      by auto
    have "editLoop_for (Suc n) E opts tmpFile dup submit doc w
                = editLoop_for n E opts tmpFile dup submit d1 w1" if "r = Yes \<or> r = Blank"
      using st that by (auto simp: editLoop_for_Suc [OF b])
    with d ev show ?thesis by blast
  qed
  have two: "\<exists>rest. events_since w0 w' = EvRender (Template opts) # rest
         \<and> (\<forall>name. EvRender name \<notin> set rest)
         \<and> (\<forall>file wr. call_tmpTemplate E (Template opts) input w0 = (Inr file, wr) \<longrightarrow>
               (\<forall>argv. EvExec argv \<in> set rest \<longrightarrow> argv \<noteq> [] \<and> last argv = file)
               \<and> (\<forall>p. EvReadFile p \<in> set rest \<longrightarrow> p = file))
         \<and> (\<forall>a. EvSubmit a None \<in> set rest \<longrightarrow>
               res = Some (Returned None) \<and> d' = a \<and> last rest = EvSubmit a None)
         \<and> (\<forall>r. res = Some r \<longrightarrow>
               EditLoop (n + k) E opts input output submit w0 = (res, d', w'))"
    if run: "EditLoop n E opts input output submit w0 = (res, d', w')"
  proof -
    from EditLoop_events [OF run] obtain rest
      where ev: "events_since w0 w' = EvRender (Template opts) # rest"
        and r: "rest = [] \<or> (\<exists>tmpFile wr. call_tmpTemplate E (Template opts) input w0 = (Inr tmpFile, wr)
                \<and> copierFail E (docZero E) output = None
                \<and> editLoop_for n E opts tmpFile output submit output wr = (res, d', w')
                \<and> rest = events_since wr w' \<and> extends (loopEvent E opts tmpFile output) wr w')"
      by blast
    have fuel: "EditLoop (n + k) E opts input output submit w0 = (res, d', w')" if "res = Some r" for r
      using run that by (simp add: EditLoop_more_fuel)
    from r show ?thesis
    proof
      assume "rest = []"
      with ev fuel show ?thesis by simp
    next
      assume "\<exists>tmpFile wr. call_tmpTemplate E (Template opts) input w0 = (Inr tmpFile, wr)
                \<and> copierFail E (docZero E) output = None
                \<and> editLoop_for n E opts tmpFile output submit output wr = (res, d', w')
                \<and> rest = events_since wr w' \<and> extends (loopEvent E opts tmpFile output) wr w'"
      then obtain tmpFile wr
        where t: "call_tmpTemplate E (Template opts) input w0 = (Inr tmpFile, wr)"
          and l: "editLoop_for n E opts tmpFile output submit output wr = (res, d', w')"
          and rest: "rest = events_since wr w'"
          and ex: "extends (loopEvent E opts tmpFile output) wr w'"
        by blast
      have kinds: "loopEvent E opts tmpFile output ev" if "ev \<in> set rest" for ev
        using extends_events [OF ex] that rest by simp
      have a: "EvRender name \<notin> set rest" for name
        using kinds [of "EvRender name"]
        by (auto simp: loopEvent_def editEvent_def parseEvent_def submitEvent_def)
      have b: "argv \<noteq> [] \<and> last argv = tmpFile" if "EvExec argv \<in> set rest" for argv
        using kinds [OF that]
        by (auto simp: loopEvent_def editEvent_def parseEvent_def submitEvent_def)
      have c: "p = tmpFile" if "EvReadFile p \<in> set rest" for p
        using kinds [OF that]
        by (auto simp: loopEvent_def editEvent_def parseEvent_def submitEvent_def)
      have s: "res = Some (Returned None) \<and> d' = a \<and> last rest = EvSubmit a None"
        if "EvSubmit a None \<in> set rest" for a
      proof -
        from ex obtain evs where tr: "trace w' = trace wr @ evs" by (auto simp: extends_def)
        then have "rest = evs" using rest by simp
        with that have "evs \<noteq> []" by auto
        then have "last rest = last (trace w')"
          using tr rest by simp
        then show ?thesis
          using editLoop_for_success [OF l, of a] that rest by simp
      qed
      show ?thesis
        using ev a b c s fuel t by (intro exI [of _ rest]) auto
    qed
  qed
  show ?thesis using one two by blast
qed

text \<open>
  C6 run with a service that rejects the first two Documents: the template is rendered
  once, the user is asked twice and goes on, and the run returns nil with the third
  Document.
\<close>

theorem failed_submit_retry_then_success_witness:
  "EditLoop (Suc (Suc (Suc 0))) (demoEnv\<lparr>yamlPopulate := plainPopulate\<rparr>) demoOpts ''summary: x'' []
      demoSubmit (demoWorld\<lparr>ext := [Yes, Blank]\<rparr>)
     = (Some (Returned None), [''summary: x!!!''],
        snd (snd (EditLoop (Suc (Suc (Suc 0))) (demoEnv\<lparr>yamlPopulate := plainPopulate\<rparr>) demoOpts
                    ''summary: x'' [] demoSubmit (demoWorld\<lparr>ext := [Yes, Blank]\<rparr>))))
   \<and> length (filter (\<lambda>ev. ev = EvRender ''edit'')
        (events_since (demoWorld\<lparr>ext := [Yes, Blank]\<rparr>)
          (snd (snd (EditLoop (Suc (Suc (Suc 0))) (demoEnv\<lparr>yamlPopulate := plainPopulate\<rparr>) demoOpts
                      ''summary: x'' [] demoSubmit (demoWorld\<lparr>ext := [Yes, Blank]\<rparr>)))))) = 1
   \<and> EvSubmit [''summary: x!''] (Some (Failure ''rejected''))
        \<in> set (events_since (demoWorld\<lparr>ext := [Yes, Blank]\<rparr>)
          (snd (snd (EditLoop (Suc (Suc (Suc 0))) (demoEnv\<lparr>yamlPopulate := plainPopulate\<rparr>) demoOpts
                      ''summary: x'' [] demoSubmit (demoWorld\<lparr>ext := [Yes, Blank]\<rparr>)))))
   \<and> EvSubmit [''summary: x!!''] (Some (Failure ''rejected''))
        \<in> set (events_since (demoWorld\<lparr>ext := [Yes, Blank]\<rparr>)
          (snd (snd (EditLoop (Suc (Suc (Suc 0))) (demoEnv\<lparr>yamlPopulate := plainPopulate\<rparr>) demoOpts
                      ''summary: x'' [] demoSubmit (demoWorld\<lparr>ext := [Yes, Blank]\<rparr>)))))"
proof -
  let ?E = "demoEnv\<lparr>yamlPopulate := plainPopulate\<rparr>"
  let ?w = "demoWorld\<lparr>ext := [Yes, Blank]\<rparr>"
  let ?run = "EditLoop (Suc (Suc (Suc 0))) ?E demoOpts ''summary: x'' [] demoSubmit ?w"
  have tr: "events_since ?w (snd (snd ?run)) =
    [EvRender ''edit'', EvCopyFile ''/tmp/t.yml'' ''/tmp/t.yml.orig'',
     EvExec [''nano'', ''/tmp/t.yml''], EvRemove ''/tmp/t.yml.orig'',
     EvReadFile ''/tmp/t.yml'', EvPopulate [] ''summary: x!'',
     EvSubmit [''summary: x!''] (Some (Failure ''rejected'')),
     EvLogError (Failure ''rejected''),
     EvConfirm ''Jira reported an error, edit again?'' Yes,
     EvCopyFile ''/tmp/t.yml'' ''/tmp/t.yml.orig'',
     EvExec [''nano'', ''/tmp/t.yml''], EvRemove ''/tmp/t.yml.orig'',
     EvReadFile ''/tmp/t.yml'', EvPopulate [] ''summary: x!!'',
     EvSubmit [''summary: x!!''] (Some (Failure ''rejected'')),
     EvLogError (Failure ''rejected''),
     EvConfirm ''Jira reported an error, edit again?'' Blank,
     EvCopyFile ''/tmp/t.yml'' ''/tmp/t.yml.orig'',
     EvExec [''nano'', ''/tmp/t.yml''], EvRemove ''/tmp/t.yml.orig'',
     EvReadFile ''/tmp/t.yml'', EvPopulate [] ''summary: x!!!'',
     EvSubmit [''summary: x!!!''] None]"
    by (simp add: run_defs demo_defs)
  have run: "?run = (fst ?run, fst (snd ?run), snd (snd ?run))" by simp
  note k = failed_submit_retry_then_success
             [where E = ?E and opts = demoOpts and input = "''summary: x''" and ?output = "[]"
                and submit = demoSubmit and ?w0.0 = ?w and n = "Suc (Suc (Suc 0))"
                and res = "fst ?run" and d' = "fst (snd ?run)" and w' = "snd (snd ?run)",
              THEN conjunct2, rule_format, OF run]
  from k obtain rest where e: "events_since ?w (snd (snd ?run)) = EvRender (Template demoOpts) # rest"
    and s: "\<forall>a. EvSubmit a None \<in> set rest \<longrightarrow>
               fst ?run = Some (Returned None) \<and> fst (snd ?run) = a \<and> last rest = EvSubmit a None"
    by blast
  from e have "EvSubmit [''summary: x!!!''] None \<in> set rest"
    unfolding tr by auto
  with s have "fst ?run = Some (Returned None)" "fst (snd ?run) = [''summary: x!!!'']" by blast+
  then have one: "?run = (Some (Returned None), [''summary: x!!!''], snd (snd ?run))"
    by (metis prod.collapse)
  show ?thesis
    unfolding tr using one by simp
qed

end
